theory Spec2Isabelle
  imports Complex_Main
begin

section \<open>Building reconstruction: a model of \<open>app/build3d.py\<close>\<close>

text \<open>
  The development follows the classes \<open>Surface\<close> and \<open>Build3d\<close> of \<open>app/build3d.py\<close>.
  Coordinates, distances and colours are \<open>real\<close> numbers: the rounding of numpy's
  \<open>float32\<close>/\<open>float64\<close> arithmetic and its non-finite values (\<open>inf\<close>, \<open>nan\<close>) are
  outside the model, and every place where the source would produce one (a division by
  zero) is named where it occurs. Arrays are lists; a boolean mask is a \<open>bool list\<close>
  aligned with the point cloud.
\<close>

subsection \<open>Vectors and the projection matrix\<close>

type_synonym vec3 = "real \<times> real \<times> real"

text \<open>A 3 x 3 array, stored by rows as \<open>numpy\<close> does.\<close>

type_synonym mat3 = "vec3 \<times> vec3 \<times> vec3"

fun vsub :: "vec3 \<Rightarrow> vec3 \<Rightarrow> vec3" where
  "vsub (a0, a1, a2) (b0, b1, b2) = (a0 - b0, a1 - b1, a2 - b2)"

fun dot :: "vec3 \<Rightarrow> vec3 \<Rightarrow> real" where
  "dot (a0, a1, a2) (b0, b1, b2) = a0 * b0 + a1 * b1 + a2 * b2"

text \<open>\<open>np.cross\<close> on two 3-vectors.\<close>

fun cross :: "vec3 \<Rightarrow> vec3 \<Rightarrow> vec3" where
  "cross (a0, a1, a2) (b0, b1, b2) =
     (a1 * b2 - a2 * b1, a2 * b0 - a0 * b2, a0 * b1 - a1 * b0)"

text \<open>\<open>np.linalg.norm\<close> of a 3-vector.\<close>

definition norm3 :: "vec3 \<Rightarrow> real" where
  "norm3 v = sqrt (dot v v)"

text \<open>\<open>v / s\<close> for an array \<open>v\<close> and a scalar \<open>s\<close>.\<close>

fun vdiv :: "vec3 \<Rightarrow> real \<Rightarrow> vec3" where
  "vdiv (a0, a1, a2) s = (a0 / s, a1 / s, a2 / s)"

text \<open>Column \<open>j\<close> of a matrix, \<open>m[:, j]\<close>.\<close>

fun column :: "mat3 \<Rightarrow> nat \<Rightarrow> vec3" where
  "column ((a00, a01, a02), (a10, a11, a12), (a20, a21, a22)) j =
     (if j = 0 then (a00, a10, a20)
      else if j = 1 then (a01, a11, a21)
      else (a02, a12, a22))"

text \<open>\<open>np.matmul\<close> of one row vector with a matrix.\<close>

definition matmul_row :: "vec3 \<Rightarrow> mat3 \<Rightarrow> vec3" where
  "matmul_row p m = (dot p (column m 0), dot p (column m 1), dot p (column m 2))"


subsection \<open>\<open>Surface\<close>\<close>

datatype error = IndexError | AttributeError | RuntimeError string

text \<open>
  The attributes of a \<open>Surface\<close> object. \<open>boundary\<close> is \<open>[minx, miny, maxx, maxy]\<close> in
  the projected coordinates. The attribute \<open>area\<close> (shapely's polygon area) is read by
  no function modelled here and is left out; the exception its computation can raise is
  kept.
\<close>

record surface =
  face_number :: nat
  origin :: vec3
  boundary :: "real \<times> real \<times> real \<times> real"
  projected_vertices :: "vec3 list"
  projection_matrix :: mat3

text \<open>\<open>x.min()\<close> and \<open>x.max()\<close> of a non-empty array.\<close>

fun amin :: "real list \<Rightarrow> real" where
  "amin [] = 0"
| "amin [x] = x"
| "amin (x # y # ys) = min x (amin (y # ys))"

fun amax :: "real list \<Rightarrow> real" where
  "amax [] = 0"
| "amax [x] = x"
| "amax (x # y # ys) = max x (amax (y # ys))"

text \<open>
  The projection matrix of \<open>calc_basic_metrics\<close>, from the vertices already moved to
  the origin: \<open>v0\<close> is the first edge, \<open>v1\<close> the closing edge, \<open>v2\<close> their cross
  product, and \<open>v1\<close> is recomputed as \<open>cross v2 v0\<close>. The columns of the result are the
  unit vectors \<open>u0\<close>, \<open>u1\<close>, \<open>u2\<close>. For a zero or parallel pair of edges the source
  divides by a zero norm (numpy gives \<open>nan\<close>); the model is meant for the other faces.
\<close>

definition basis_matrix :: "vec3 list \<Rightarrow> mat3" where
  "basis_matrix vertices =
     (let v0 = vsub (vertices ! 1) (vertices ! 0);
          v1 = vsub (last vertices) (vertices ! 0);
          v2 = cross v0 v1;
          v1 = cross v2 v0;
          u0 = vdiv v0 (norm3 v0);
          u1 = vdiv v1 (norm3 v1);
          u2 = vdiv v2 (norm3 v2)
      in ((fst u0, fst u1, fst u2),
          (fst (snd u0), fst (snd u1), fst (snd u2)),
          (snd (snd u0), snd (snd u1), snd (snd u2))))"

text \<open>
  \<open>Surface.calc_basic_metrics\<close>. \<open>ring\<close> is \<open>face.exterior.coords\<close>, whose last
  coordinate repeats the first; \<open>ring[:-1]\<close> drops it. Indexing the first two vertices
  raises \<open>IndexError\<close> when they are missing, and shapely refuses a polygon of fewer
  than three points, which the source turns into a \<open>RuntimeError\<close>.
\<close>

definition calc_basic_metrics :: "nat \<Rightarrow> vec3 list \<Rightarrow> error + surface" where
  "calc_basic_metrics n ring =
     (let vertices = butlast ring in
      if length vertices < 2 then Inl IndexError
      else
        let org = vertices ! 0;
            vertices = map (\<lambda>v. vsub v org) vertices;
            m = basis_matrix vertices;
            pv = map (\<lambda>v. matmul_row v m) vertices
        in if length pv < 3 then Inl (RuntimeError ''Wall vertices are overlapping.'')
           else
             let x = map fst pv; y = map (\<lambda>p. fst (snd p)) pv
             in Inr \<lparr> face_number = n, origin = org,
                      boundary = (amin x, amin y, amax x, amax y),
                      projected_vertices = pv, projection_matrix = m \<rparr>)"

subsection \<open>The vertex list of the mesh\<close>

text \<open>
  \<open>list.index\<close>: the first position of a value, or \<open>None\<close> where Python raises
  \<open>ValueError\<close>.
\<close>

fun index_of :: "'a \<Rightarrow> 'a list \<Rightarrow> nat option" where
  "index_of v [] = None"
| "index_of v (x # xs) = (if x = v then Some 0 else map_option Suc (index_of v xs))"

text \<open>
  The \<open>try: pos = xs.index(v)  except ValueError: pos = len(xs); xs.append(v)\<close> step
  that both the vertex loop and the texture-coordinate loop of \<open>make_objfiles\<close> use.
\<close>

definition index_or_append :: "'a \<Rightarrow> 'a list \<Rightarrow> nat \<times> 'a list" where
  "index_or_append v xs =
     (case index_of v xs of Some pos \<Rightarrow> (pos, xs) | None \<Rightarrow> (length xs, xs @ [v]))"

text \<open>
  The inner loop \<open>for v in ring[:-1]\<close>: the positions of one face's vertices, and the
  list as it has grown.
\<close>

fun ring_indices :: "'a list \<Rightarrow> 'a list \<Rightarrow> nat list \<times> 'a list" where
  "ring_indices [] acc = ([], acc)"
| "ring_indices (v # vs) acc =
     (let (pos, acc1) = index_or_append v acc;
          (rest, acc2) = ring_indices vs acc1
      in (pos # rest, acc2))"

text \<open>The outer loop over the faces, threading the one list through all of them.\<close>

fun index_faces :: "'a list list \<Rightarrow> 'a list \<Rightarrow> nat list list \<times> 'a list" where
  "index_faces [] acc = ([], acc)"
| "index_faces (r # rs) acc =
     (let (vertices, acc1) = ring_indices r acc;
          (rest, acc2) = index_faces rs acc1
      in (vertices # rest, acc2))"

text \<open>
  Lines 158 to 175 of \<open>make_objfiles\<close>: \<open>face_vertices\<close> and \<open>all_vertices\<close>, from
  the rings of the faces, starting from the empty list.
\<close>

definition face_vertices :: "vec3 list list \<Rightarrow> nat list list" where
  "face_vertices faces = fst (index_faces (map butlast faces) [])"

definition all_vertices :: "vec3 list list \<Rightarrow> vec3 list" where
  "all_vertices faces = snd (index_faces (map butlast faces) [])"

subsection \<open>The point cloud and its projection on a face\<close>

type_synonym rgb = "real \<times> real \<times> real"

text \<open>
  An Open3D point cloud: positions and colours, aligned by index. Colours are in
  \<open>[0, 1]\<close>.
\<close>

record pointcloud =
  points :: "vec3 list"
  colors :: "rgb list"

text \<open>
  \<open>Surface.get_projected_points\<close>: every point moved to the face's origin and
  multiplied with the projection matrix. The result holds the in-plane coordinates and
  the signed distance from the plane.
\<close>

definition get_projected_points :: "surface \<Rightarrow> pointcloud \<Rightarrow> vec3 list" where
  "get_projected_points s pcd =
     map (\<lambda>p. matmul_row (vsub p (origin s)) (projection_matrix s)) (points pcd)"

definition xcoord :: "vec3 \<Rightarrow> real" where
  "xcoord p = fst p"

definition ycoord :: "vec3 \<Rightarrow> real" where
  "ycoord p = fst (snd p)"

definition zcoord :: "vec3 \<Rightarrow> real" where
  "zcoord p = snd (snd p)"

text \<open>
  \<open>outbound_mask\<close> of \<open>get_distance_matrix\<close>, for one projected point:
  \<open>(x < minx) | (x > maxx) | (y < miny) | (y > maxy)\<close>.
\<close>

definition outbound :: "surface \<Rightarrow> vec3 \<Rightarrow> bool" where
  "outbound s p =
     (case boundary s of (minx, miny, maxx, maxy) \<Rightarrow>
        xcoord p < minx \<or> xcoord p > maxx \<or> ycoord p < miny \<or> ycoord p > maxy)"

text \<open>
  \<open>Surface.get_distance_matrix\<close>: \<open>np.fabs(z) + outbound_mask * 999.9\<close>. The source
  never reads its parameter \<open>check_bounds\<close>: the penalty is always added.
\<close>

definition get_distance_matrix :: "surface \<Rightarrow> pointcloud \<Rightarrow> real list" where
  "get_distance_matrix s pcd =
     map (\<lambda>p. \<bar>zcoord p\<bar> + (if outbound s p then 9999 / 10 else 0))
       (get_projected_points s pcd)"

subsection \<open>The distance matrix and the nearest face\<close>

text \<open>
  The loop of \<open>make_objfiles\<close> that fills \<open>nkmap\<close> and \<open>list_of_distances\<close> (lines 196
  to 222). \<open>nsurf\<close> is \<open>len(surfaces)\<close>, \<open>n\<close> the number of the face at the head of
  the list and \<open>k\<close> the number of rows appended so far. The result is \<open>nkmap\<close> for the
  faces from \<open>n\<close> on and the rows they append.
\<close>

fun distance_rows ::
  "int \<Rightarrow> pointcloud \<Rightarrow> nat \<Rightarrow> nat \<Rightarrow> nat \<Rightarrow> surface list \<Rightarrow> nat option list \<times> real list list"
where
  "distance_rows lod pcd nsurf n k [] = ([], [])"
| "distance_rows lod pcd nsurf n k (s # ss) =
     (let distances = get_distance_matrix s pcd in
      if length distances = 0
      then (let (nkmap, rows) = distance_rows lod pcd nsurf (n + 1) k ss
            in (None # nkmap, rows))
      else
        let distances =
              (if lod = 1 \<and> (n = 0 \<or> int n = int nsurf - 1)
               then map (\<lambda>d. d + 9999 / 10) distances else distances);
            min_dist = amin distances
        in if min_dist > 10
           then (let (nkmap, rows) = distance_rows lod pcd nsurf (n + 1) k ss
                 in (None # nkmap, rows))
           else (let (nkmap, rows) = distance_rows lod pcd nsurf (n + 1) (k + 1) ss
                 in (Some k # nkmap, distances # rows)))"

definition nkmap :: "int \<Rightarrow> surface list \<Rightarrow> pointcloud \<Rightarrow> nat option list" where
  "nkmap lod surfaces pcd = fst (distance_rows lod pcd (length surfaces) 0 0 surfaces)"

definition distance_matrix :: "int \<Rightarrow> surface list \<Rightarrow> pointcloud \<Rightarrow> real list list" where
  "distance_matrix lod surfaces pcd =
     snd (distance_rows lod pcd (length surfaces) 0 0 surfaces)"

text \<open>
  The distance values of face \<open>n\<close> before the penalty of the \<open>lod = 1\<close> branch: what
  \<open>get_distance_matrix\<close> returns for it.
\<close>

definition face_distances :: "surface list \<Rightarrow> pointcloud \<Rightarrow> nat \<Rightarrow> real list" where
  "face_distances surfaces pcd n = get_distance_matrix (surfaces ! n) pcd"

text \<open>
  \<open>np.argmin\<close> of a vector: the first position of the least value.
\<close>

fun argmin :: "real list \<Rightarrow> nat" where
  "argmin [] = 0"
| "argmin [x] = 0"
| "argmin (x # y # ys) =
     (let j = argmin (y # ys) in if x \<le> (y # ys) ! j then 0 else Suc j)"

text \<open>Column \<open>j\<close> of the matrix, \<open>distance_matrix[:, j]\<close>.\<close>

definition matrix_column :: "real list list \<Rightarrow> nat \<Rightarrow> real list" where
  "matrix_column m j = map (\<lambda>row. row ! j) m"

text \<open>
  \<open>nearest_face\<close>: \<open>False\<close> (here \<open>None\<close>) for a matrix without rows, else
  \<open>np.argmin(distance_matrix, axis=0)\<close>, one row number per point.
\<close>

definition nearest_face :: "real list list \<Rightarrow> nat list option" where
  "nearest_face m =
     (if length m = 0 then None
      else Some (map (\<lambda>j. argmin (matrix_column m j)) [0..<length (hd m)]))"

subsection \<open>The masks of the three mapping methods\<close>

text \<open>
  A mask is a Python \<open>bool\<close> or a boolean array (\<open>Union[np.ndarray, bool]\<close>).
\<close>

datatype mask = Scalar bool | Array "bool list"

text \<open>
  \<open>nearest_face == k\<close>, as the selection it makes among \<open>npoints\<close> points. With
  \<open>nearest_face = False\<close> or \<open>k = None\<close> the comparison selects no point. (The one
  other combination, \<open>False == 0\<close>, does not arise: a matrix without rows leaves every
  entry of \<open>nkmap\<close> at \<open>None\<close>.)
\<close>

fun face_eq :: "nat list option \<Rightarrow> nat option \<Rightarrow> nat \<Rightarrow> bool list" where
  "face_eq (Some nf) (Some k) npoints = map (\<lambda>f. f = k) nf"
| "face_eq _ _ npoints = replicate npoints False"

text \<open>\<open>a[mask]\<close> for a boolean array \<open>mask\<close> as long as \<open>a\<close>.\<close>

definition select :: "bool list \<Rightarrow> 'a list \<Rightarrow> 'a list" where
  "select bs xs = map snd (filter fst (zip bs xs))"

text \<open>
  The mask of method \<open>nearest\<close> for face \<open>n\<close> (lines 240 to 246):
  \<open>(nearest_face == k) & (distance_matrix[k, :] < 999.0)\<close>. Reading row \<open>k\<close> of a
  matrix that has no such row raises \<open>IndexError\<close>.
\<close>

definition nearest_mask ::
  "nat option list \<Rightarrow> nat list option \<Rightarrow> real list list \<Rightarrow> nat \<Rightarrow> error + mask"
where
  "nearest_mask nk nf m n =
     (case nk ! n of
        None \<Rightarrow> Inr (Scalar False)
      | Some k \<Rightarrow>
          if k < length m
          then Inr (Array (map2 (\<and>) (face_eq nf (Some k) (length (m ! k)))
                            (map (\<lambda>d. d < 999) (m ! k))))
          else Inl IndexError)"

text \<open>
  The mask of method \<open>smart\<close> for face \<open>n\<close> (lines 259 to 272). The points whose
  nearest face is this one give the range \<open>z_range\<close> of depths; the mask then takes
  every point of the cloud whose depth is in that range.
\<close>

definition z_range :: "real list \<Rightarrow> real \<times> real" where
  "z_range z = (min (- 1) (max (- 10) (amin z)), max 1 (amax z))"

definition smart_mask ::
  "nat option list \<Rightarrow> nat list option \<Rightarrow> surface \<Rightarrow> pointcloud \<Rightarrow> nat \<Rightarrow> mask"
where
  "smart_mask nk nf s pcd n =
     (let k = nk ! n;
          msk = face_eq nf k (length (points pcd));
          projected_pcd = get_projected_points s pcd;
          filtered_pcd = select msk projected_pcd
      in if length filtered_pcd = 0 then Scalar False
         else
           let r = z_range (map zcoord filtered_pcd)
           in Array (map (\<lambda>p. zcoord p \<ge> fst r \<and> zcoord p \<le> snd r) projected_pcd))"

subsection \<open>\<open>Build3d\<close> and the downsampling of the point cloud\<close>

text \<open>
  The attributes of a \<open>Build3d\<close> object that texture creation reads. \<open>dirname\<close> is
  \<open>None\<close> until \<open>set_dirname\<close> has been called: reading it before raises
  \<open>AttributeError\<close>. \<open>gridsize\<close> starts at \<open>GRIDSIZE\<close> and is set by
  \<open>get_pointcloud\<close>.
\<close>

record build3d =
  bldid :: string
  lod :: int
  dirname :: "string option"
  pcd :: pointcloud
  gridsize :: real

definition GRIDSIZE :: real where
  "GRIDSIZE = 1 / 100"





text \<open>
  A model of Open3D's \<open>voxel_down_sample\<close>, for the examples: the cloud is cut into
  voxels of edge \<open>g\<close>, aligned at the least corner of the cloud minus half a voxel,
  and every occupied voxel gives one point, the mean of its points, with the mean of
  their colours. (Open3D does not fix the order of the result.) The theorems below hold
  for every function in its place; only the examples use this one.
\<close>

definition voxel_index :: "real \<Rightarrow> vec3 \<Rightarrow> vec3 \<Rightarrow> int \<times> int \<times> int" where
  "voxel_index g min_bound p =
     (\<lfloor>(xcoord p - (xcoord min_bound - g / 2)) / g\<rfloor>,
      \<lfloor>(ycoord p - (ycoord min_bound - g / 2)) / g\<rfloor>,
      \<lfloor>(zcoord p - (zcoord min_bound - g / 2)) / g\<rfloor>)"

definition mean3 :: "vec3 list \<Rightarrow> vec3" where
  "mean3 ps =
     (sum_list (map xcoord ps) / of_nat (length ps),
      sum_list (map ycoord ps) / of_nat (length ps),
      sum_list (map zcoord ps) / of_nat (length ps))"

definition voxel_down_sample :: "real \<Rightarrow> pointcloud \<Rightarrow> pointcloud" where
  "voxel_down_sample g pc =
     (let min_bound = (amin (map xcoord (points pc)), amin (map ycoord (points pc)),
                       amin (map zcoord (points pc)));
          idx = map (voxel_index g min_bound) (points pc);
          voxels = remdups idx
      in \<lparr> points = map (\<lambda>v. mean3 (select (map (\<lambda>i. i = v) idx) (points pc))) voxels,
           colors = map (\<lambda>v. mean3 (select (map (\<lambda>i. i = v) idx) (colors pc))) voxels \<rparr>)"

subsection \<open>Texture images\<close>

type_synonym pixel = "nat \<times> nat \<times> nat"

text \<open>An image is a list of rows of pixels.\<close>

type_synonym image = "pixel list list"

datatype file_content = Png image | Ply pointcloud

text \<open>A file is identified by its directory and its base name.\<close>

type_synonym filesystem = "string \<times> string \<rightharpoonup> file_content"

definition DEFAULT_IMAGESIZE :: int where
  "DEFAULT_IMAGESIZE = 1024"

text \<open>\<open>Image.new('RGB', (4, 4), (128, 128, 128))\<close>.\<close>

definition gray_image :: image where
  "gray_image = replicate 4 (replicate 4 (128, 128, 128))"

text \<open>
  The test \<open>(x >= minx) & (x <= maxx) & (y >= miny) & (y <= maxy)\<close> of
  \<open>create_texture_image\<close>, for one projected point.
\<close>

definition in_bounds :: "surface \<Rightarrow> vec3 \<Rightarrow> bool" where
  "in_bounds s p =
     (case boundary s of (minx, miny, maxx, maxy) \<Rightarrow>
        xcoord p \<ge> minx \<and> xcoord p \<le> maxx \<and> ycoord p \<ge> miny \<and> ycoord p \<le> maxy)"

text \<open>\<open>mask & a\<close> for a mask and a boolean array: a scalar is broadcast.\<close>

fun mask_and :: "mask \<Rightarrow> bool list \<Rightarrow> bool list" where
  "mask_and (Scalar b) ys = map (\<lambda>y. b \<and> y) ys"
| "mask_and (Array xs) ys = map2 (\<and>) xs ys"

text \<open>
  The size of a pixel (lines 735 to 738). For \<open>imagesize = 1\<close> the source divides by
  zero and gets a non-finite float; the model is meant for the other sizes.
\<close>

definition grid_size :: "surface \<Rightarrow> int \<Rightarrow> real \<Rightarrow> real" where
  "grid_size s imagesize g =
     (case boundary s of (minx, miny, maxx, maxy) \<Rightarrow>
        max (max ((maxx - minx) / (of_int imagesize - 1))
                 ((maxy - miny) / (of_int imagesize - 1))) g)"

text \<open>\<open>'{:03d}'.format(n)\<close>: decimal digits, padded with zeros to three places.\<close>

fun digits :: "nat \<Rightarrow> string" where
  "digits n =
     (if n < 10 then [''0123456789'' ! n]
      else digits (n div 10) @ [''0123456789'' ! (n mod 10)])"

declare digits.simps [simp del]

definition fmt03 :: "nat \<Rightarrow> string" where
  "fmt03 n = replicate (3 - length (digits n)) (CHR ''0'') @ digits n"

text \<open>\<open>np.linspace(a, b, num)\<close>.\<close>

definition linspace :: "real \<Rightarrow> real \<Rightarrow> nat \<Rightarrow> real list" where
  "linspace a b num =
     (if num = 1 then [a]
      else map (\<lambda>i. a + of_nat i * ((b - a) / of_nat (num - 1))) [0..<num])"

text \<open>
  The k-d tree of scipy works with the Euclidean distance. The model keeps the square of
  the distance, which has the same least element and can be computed; the test
  \<open>dists > t\<close> on the distance is written on the square (lemma \<open>farther_than_sqrt\<close>
  below shows that it is the same test).
\<close>

definition sqdist :: "real \<times> real \<Rightarrow> real \<times> real \<Rightarrow> real" where
  "sqdist p q = (fst p - fst q)\<^sup>2 + (snd p - snd q)\<^sup>2"

definition farther_than :: "real \<times> real \<Rightarrow> real \<times> real \<Rightarrow> real \<Rightarrow> bool" where
  "farther_than p q t = (t < 0 \<or> sqdist p q > t\<^sup>2)"

text \<open>
  The nearest sample of a grid position, as the k-d tree finds it (among samples at the
  same distance the model takes the first).
\<close>

definition nearest_sample :: "(real \<times> real) list \<Rightarrow> real \<times> real \<Rightarrow> nat" where
  "nearest_sample xyarray q = argmin (map (\<lambda>p. sqdist p q) xyarray)"

text \<open>
  \<open>int(x)\<close> of a float: truncation towards zero.
\<close>

definition trunc :: "real \<Rightarrow> int" where
  "trunc x = (if x \<ge> 0 then \<lfloor>x\<rfloor> else \<lceil>x\<rceil>)"

text \<open>
  \<open>(c * 256).astype(np.uint8)\<close> for one colour channel: truncated, and reduced modulo
  256 as the cast does on the usual platforms.
\<close>

definition to_uint8 :: "real \<Rightarrow> nat" where
  "to_uint8 c = nat (trunc (c * 256) mod 256)"

definition pixel_of :: "rgb \<Rightarrow> pixel" where
  "pixel_of c = (case c of (r, g, b) \<Rightarrow> (to_uint8 r, to_uint8 g, to_uint8 b))"

text \<open>
  Lines 786 to 804: the grid over the bounding box, each cell with the colour of its
  nearest sample (\<open>scipy.interpolate.griddata\<close>, method \<open>nearest\<close>), and gray where
  that sample is farther than twice the grid size.
\<close>

definition rasterize ::
  "(real \<times> real) list \<Rightarrow> rgb list \<Rightarrow> real \<times> real \<times> real \<times> real \<Rightarrow> real \<Rightarrow> image"
where
  "rasterize xyarray filtered_colors bnd g =
     (case bnd of (minx, miny, maxx, maxy) \<Rightarrow>
        let width = nat (trunc ((maxx - minx) / g) + 1);
            height = nat (trunc ((maxy - miny) / g) + 1);
            new_xcoord = linspace minx maxx width;
            new_ycoord = linspace miny maxy height
        in map (\<lambda>y. map (\<lambda>x.
                 let i = nearest_sample xyarray (x, y)
                 in if farther_than (xyarray ! i) (x, y) (g * 2) then (128, 128, 128)
                    else pixel_of (filtered_colors ! i)) new_xcoord) new_ycoord)"

text \<open>What \<open>create_texture_image\<close> returns, and the files after the call.\<close>

record texture =
  image_name :: string
  files :: filesystem

text \<open>
  \<open>Surface.create_texture_image\<close>. \<open>vds\<close> is Open3D's \<open>voxel_down_sample\<close>, \<open>b\<close>
  the \<open>Build3d\<close> object of the face and \<open>fs\<close> the files before the call. The
  downsampled cloud \<open>new_pcd\<close> is written to the PLY file when \<open>write_pointcloud\<close> is
  set; the raster is made from \<open>filtered_points\<close> and \<open>filtered_colors\<close>.
\<close>

definition create_texture_image ::
  "(real \<Rightarrow> pointcloud \<Rightarrow> pointcloud) \<Rightarrow> build3d \<Rightarrow> surface \<Rightarrow> filesystem \<Rightarrow>
     mask \<Rightarrow> int option \<Rightarrow> string option \<Rightarrow> bool \<Rightarrow> error + texture"
where
  "create_texture_image vds b s fs msk imagesize prefix write_pointcloud =
     (let imagesize = (case imagesize of None \<Rightarrow> DEFAULT_IMAGESIZE | Some i \<Rightarrow> i);
          prefix = (case prefix of None \<Rightarrow> bldid b
                    | Some p \<Rightarrow> if p = [] then bldid b else p);
          g = grid_size s imagesize (gridsize b);
          projected_points = get_projected_points s (pcd b);
          msk = mask_and msk (map (in_bounds s) projected_points)
      in if \<not> list_ex (\<lambda>x. x) msk
         then
           (case dirname b of
              None \<Rightarrow> Inl AttributeError
            | Some d \<Rightarrow>
                Inr \<lparr> image_name = ''no_texture.png'',
                      files = (if fs (d, ''no_texture.png'') \<noteq> None then fs
                               else fs((d, ''no_texture.png'') \<mapsto> Png gray_image)) \<rparr>)
         else
           let filtered_points = select msk projected_points;
               filtered_colors = select msk (colors (pcd b));
               new_pcd = \<lparr> points = filtered_points, colors = filtered_colors \<rparr>;
               new_pcd = (if g > gridsize b * 2 then vds g new_pcd else new_pcd)
           in case dirname b of
                None \<Rightarrow> Inl AttributeError
              | Some d \<Rightarrow>
                  let fs = (if write_pointcloud
                            then fs((d, prefix @ ''_'' @ fmt03 (face_number s) @ ''.ply'')
                                      \<mapsto> Ply new_pcd)
                            else fs);
                      xyarray = map (\<lambda>p. (xcoord p, ycoord p)) filtered_points;
                      basename = prefix @ ''_'' @ fmt03 (face_number s) @ ''.png''
                  in Inr \<lparr> image_name = basename,
                           files = fs((d, basename) \<mapsto>
                             Png (rasterize xyarray filtered_colors (boundary s) g)) \<rparr>)"

subsection \<open>Texture coordinates and the lines of the mesh file\<close>

text \<open>\<open>np.rint\<close>: the nearest integer, a tie going to the even one.\<close>

definition rint :: "real \<Rightarrow> int" where
  "rint x =
     (let f = \<lfloor>x\<rfloor>; d = x - of_int f
      in if d < 1 / 2 then f else if d > 1 / 2 then f + 1
         else if even f then f else f + 1)"

text \<open>\<open>round(x, 3)\<close> of a numpy float.\<close>

definition round3 :: "real \<Rightarrow> real" where
  "round3 x = of_int (rint (x * 1000)) / 1000"

text \<open>
  The texture coordinate of one projected vertex (lines 301 to 308). A face whose
  bounding box has no width or no height makes the source divide by zero.
\<close>

definition texture_coord :: "surface \<Rightarrow> vec3 \<Rightarrow> real \<times> real" where
  "texture_coord s vertice =
     (case boundary s of (minx, miny, maxx, maxy) \<Rightarrow>
        let width = maxx - minx; height = maxy - miny
        in (round3 ((xcoord vertice - minx) / width),
            round3 (1 - (ycoord vertice - miny) / height)))"

text \<open>The texture coordinates of the vertices of one face, in ring order.\<close>

definition face_texture_coords :: "surface \<Rightarrow> (real \<times> real) list" where
  "face_texture_coords s = map (texture_coord s) (projected_vertices s)"

text \<open>
  Lines 293 to 317 of \<open>make_objfiles\<close>: \<open>vt_index\<close> and \<open>vt_list\<close>. The list
  \<open>vt_list\<close> is created once, before the loop over the faces, and every face looks its
  coordinates up in it and appends to it.
\<close>

definition vt_index :: "surface list \<Rightarrow> nat list list" where
  "vt_index surfaces = fst (index_faces (map face_texture_coords surfaces) [])"

definition vt_list :: "surface list \<Rightarrow> (real \<times> real) list" where
  "vt_list surfaces = snd (index_faces (map face_texture_coords surfaces) [])"

text \<open>
  The \<open>f\<close> line of face \<open>n\<close> (lines 324 to 333): for every vertex the triple
  \<open>v + 1\<close>, \<open>vt_index[n][i] + 1\<close>, \<open>n + 1\<close>.
\<close>

definition face_line :: "nat \<Rightarrow> nat list \<Rightarrow> nat list \<Rightarrow> (nat \<times> nat \<times> nat) list" where
  "face_line n vertices vt =
     map (\<lambda>(i, v). (v + 1, vt ! i + 1, n + 1)) (enumerate 0 vertices)"

definition f_lines :: "vec3 list list \<Rightarrow> surface list \<Rightarrow> (nat \<times> nat \<times> nat) list list" where
  "f_lines faces surfaces =
     map (\<lambda>(n, vertices). face_line n vertices (vt_index surfaces ! n))
       (enumerate 0 (face_vertices faces))"

subsection \<open>\<open>Build3d.make_objfiles\<close>\<close>

text \<open>
  The mapping method: \<open>all\<close>, \<open>nearest\<close>, and \<open>smart\<close> for every other string.
\<close>

datatype mapping_method = MethodAll | MethodNearest | MethodSmart

text \<open>\<open>Surface(i, build3d=self)\<close> for the faces from number \<open>n\<close> on.\<close>

fun make_surfaces :: "nat \<Rightarrow> vec3 list list \<Rightarrow> error + surface list" where
  "make_surfaces n [] = Inr []"
| "make_surfaces n (ring # rings) =
     (case calc_basic_metrics n ring of
        Inl e \<Rightarrow> Inl e
      | Inr s \<Rightarrow>
          (case make_surfaces (n + 1) rings of
             Inl e \<Rightarrow> Inl e
           | Inr ss \<Rightarrow> Inr (s # ss)))"

text \<open>The mask that \<open>make_objfiles\<close> passes to \<open>create_texture_image\<close> for face \<open>n\<close>.\<close>

definition texture_mask ::
  "mapping_method \<Rightarrow> build3d \<Rightarrow> surface list \<Rightarrow> nat \<Rightarrow> error + mask"
where
  "texture_mask method b surfaces n =
     (let nk = nkmap (lod b) surfaces (pcd b);
          m = distance_matrix (lod b) surfaces (pcd b);
          nf = nearest_face m
      in case method of
           MethodAll \<Rightarrow> Inr (Scalar True)
         | MethodNearest \<Rightarrow> nearest_mask nk nf m n
         | MethodSmart \<Rightarrow> Inr (smart_mask nk nf (surfaces ! n) (pcd b) n))"

text \<open>
  The loop that fills \<open>texture_images\<close>, for the faces numbered \<open>ns\<close>; the files are
  threaded through the calls.
\<close>

fun texture_loop ::
  "(real \<Rightarrow> pointcloud \<Rightarrow> pointcloud) \<Rightarrow> build3d \<Rightarrow> mapping_method \<Rightarrow> int option \<Rightarrow> string \<Rightarrow>
     surface list \<Rightarrow> filesystem \<Rightarrow> nat list \<Rightarrow> error + string list \<times> filesystem"
where
  "texture_loop vds b method imagesize prefix surfaces fs [] = Inr ([], fs)"
| "texture_loop vds b method imagesize prefix surfaces fs (n # ns) =
     (case texture_mask method b surfaces n of
        Inl e \<Rightarrow> Inl e
      | Inr msk \<Rightarrow>
          (case create_texture_image vds b (surfaces ! n) fs msk imagesize (Some prefix) False of
             Inl e \<Rightarrow> Inl e
           | Inr t \<Rightarrow>
               (case texture_loop vds b method imagesize prefix surfaces (files t) ns of
                  Inl e \<Rightarrow> Inl e
                | Inr (names, fs') \<Rightarrow> Inr (image_name t # names, fs'))))"

text \<open>
  What \<open>make_objfiles\<close> writes: the texture image of every face (its \<open>usemtl\<close> and
  \<open>newmtl\<close> name), the \<open>v\<close>, \<open>vn\<close>, \<open>vt\<close> and \<open>f\<close> lines of the OBJ file as numbers,
  and the files of the texture images.
\<close>

record objfiles =
  texture_images :: "string list"
  v_lines :: "vec3 list"
  vn_lines :: "vec3 list"
  vt_lines :: "(real \<times> real) list"
  obj_f_lines :: "(nat \<times> nat \<times> nat) list list"
  written :: filesystem

text \<open>
  \<open>Build3d.make_objfiles\<close>. \<open>faces\<close> are the rings of the building's faces and
  \<open>prefix\<close> the file prefix that the source formats from the job's parameters.
\<close>

definition make_objfiles ::
  "(real \<Rightarrow> pointcloud \<Rightarrow> pointcloud) \<Rightarrow> build3d \<Rightarrow> vec3 list list \<Rightarrow> filesystem \<Rightarrow>
     int option \<Rightarrow> mapping_method \<Rightarrow> string \<Rightarrow> error + objfiles"
where
  "make_objfiles vds b faces fs imagesize method prefix =
     (case make_surfaces 0 faces of
        Inl e \<Rightarrow> Inl e
      | Inr surfaces \<Rightarrow>
          (case texture_loop vds b method imagesize prefix surfaces fs [0..<length surfaces] of
             Inl e \<Rightarrow> Inl e
           | Inr (names, fs') \<Rightarrow>
               (case dirname b of
                  None \<Rightarrow> Inl AttributeError
                | Some d \<Rightarrow>
                    Inr \<lparr> texture_images = names,
                          v_lines = all_vertices faces,
                          vn_lines = map (\<lambda>s. column (projection_matrix s) 2) surfaces,
                          vt_lines = vt_list surfaces,
                          obj_f_lines = f_lines faces surfaces,
                          written = fs' \<rparr>)))"

subsection \<open>A small building\<close>

text \<open>
  Two faces that share an edge: a square floor in the plane \<open>z = 0\<close> and a triangular
  wall in the plane \<open>x = 0\<close>. The rings are closed, as shapely stores them.
\<close>

definition floor_ring :: "vec3 list" where
  "floor_ring = [(0, 0, 0), (2, 0, 0), (2, 2, 0), (0, 2, 0), (0, 0, 0)]"

definition wall_ring :: "vec3 list" where
  "wall_ring = [(0, 0, 0), (0, 2, 0), (0, 0, 2), (0, 0, 0)]"

definition floor_surface :: surface where
  "floor_surface =
     \<lparr> face_number = 0, origin = (0, 0, 0), boundary = (0, 0, 2, 2),
       projected_vertices = [(0, 0, 0), (2, 0, 0), (2, 2, 0), (0, 2, 0)],
       projection_matrix = ((1, 0, 0), (0, 1, 0), (0, 0, 1)) \<rparr>"

definition wall_surface :: surface where
  "wall_surface =
     \<lparr> face_number = 1, origin = (0, 0, 0), boundary = (0, 0, 2, 2),
       projected_vertices = [(0, 0, 0), (2, 0, 0), (0, 2, 0)],
       projection_matrix = ((0, 0, 1), (1, 0, 0), (0, 1, 0)) \<rparr>"

text \<open>
  Three points: one just above the floor, one next to the wall, one far in front of
  the wall. All of them are within the heights that \<open>crop_point_cloud\<close> keeps.
\<close>

definition three_points :: pointcloud where
  "three_points =
     \<lparr> points = [(1, 1, 1 / 5), (1 / 10, 1, 1 / 2), (1999 / 2, 1, 1)],
       colors = [(1 / 4, 0, 0), (0, 1 / 4, 0), (0, 0, 1 / 4)] \<rparr>"

text \<open>
  A job on this building and these points, with the level of detail \<open>l\<close>, before any
  downsampling.
\<close>

definition job :: "int \<Rightarrow> build3d" where
  "job l = \<lparr> bldid = ''bldg'', lod = l, dirname = Some ''out'', pcd = three_points,
             gridsize = GRIDSIZE \<rparr>"

text \<open>
  Two points of different colours, four millimetres apart on the floor, and a job on
  them.
\<close>

definition two_points :: pointcloud where
  "two_points =
     \<lparr> points = [(0, 0, 0), (1 / 250, 0, 0)],
       colors = [(1 / 4, 0, 0), (1 / 2, 0, 0)] \<rparr>"

definition close_job :: build3d where
  "close_job = \<lparr> bldid = ''bldg'', lod = 2, dirname = Some ''out'', pcd = two_points,
                 gridsize = GRIDSIZE \<rparr>"


subsection \<open>The winding of a ring\<close>





section \<open>Properties\<close>

subsection \<open>The index lists\<close>

lemma index_of_SomeD: "index_of v xs = Some p \<Longrightarrow> p < length xs \<and> xs ! p = v"
  by (induction xs arbitrary: p) (auto split: if_splits)

lemma index_of_None_iff: "index_of v xs = None \<longleftrightarrow> v \<notin> set xs"
  by (induction xs) auto

lemma index_or_append_props:
  assumes "distinct xs" and "index_or_append v xs = (p, ys)"
  shows "distinct ys \<and> (\<exists>zs. ys = xs @ zs) \<and> p < length ys \<and> ys ! p = v"
proof (cases "index_of v xs")
  case None
  with assms show ?thesis
    by (auto simp: index_or_append_def index_of_None_iff)
next
  case (Some q)
  with assms index_of_SomeD[OF Some] show ?thesis
    by (auto simp: index_or_append_def)
qed

lemma ring_indices_props:
  assumes "distinct acc" and "ring_indices vs acc = (ps, acc')"
  shows "distinct acc' \<and> (\<exists>zs. acc' = acc @ zs) \<and> length ps = length vs \<and>
         (\<forall>i<length vs. ps ! i < length acc' \<and> acc' ! (ps ! i) = vs ! i)"
  using assms
proof (induction vs arbitrary: acc ps acc')
  case Nil
  then show ?case by simp
next
  case (Cons v vs)
  obtain pos acc1 where s1: "index_or_append v acc = (pos, acc1)"
    by (cases "index_or_append v acc")
  obtain rest acc2 where s2: "ring_indices vs acc1 = (rest, acc2)"
    by (cases "ring_indices vs acc1")
  from Cons.prems(2) s1 s2 have ps: "ps = pos # rest" and acc': "acc' = acc2"
    by simp_all
  from index_or_append_props[OF Cons.prems(1) s1]
  have d1: "distinct acc1" and e1: "\<exists>zs. acc1 = acc @ zs"
    and p1: "pos < length acc1" "acc1 ! pos = v"
    by blast+
  from Cons.IH[OF d1 s2]
  have d2: "distinct acc2" and e2: "\<exists>zs. acc2 = acc1 @ zs"
    and l2: "length rest = length vs"
    and i2: "\<forall>i<length vs. rest ! i < length acc2 \<and> acc2 ! (rest ! i) = vs ! i"
    by blast+
  from e1 e2 have ext: "\<exists>zs. acc2 = acc @ zs" by auto
  from e2 p1 have p2: "pos < length acc2" "acc2 ! pos = v"
    by (auto simp: nth_append)
  have "\<forall>i<length (v # vs). (pos # rest) ! i < length acc2 \<and> acc2 ! ((pos # rest) ! i) = (v # vs) ! i"
  proof (intro allI impI)
    fix i assume "i < length (v # vs)"
    then show "(pos # rest) ! i < length acc2 \<and> acc2 ! ((pos # rest) ! i) = (v # vs) ! i"
      using p2 i2 by (cases i) auto
  qed
  with d2 ext l2 show ?case unfolding ps acc' by simp
qed

lemma index_faces_props:
  assumes "distinct acc" and "index_faces rs acc = (out, acc')"
  shows "distinct acc' \<and> (\<exists>zs. acc' = acc @ zs) \<and> length out = length rs \<and>
         (\<forall>n<length rs. length (out ! n) = length (rs ! n) \<and>
            (\<forall>i<length (rs ! n). out ! n ! i < length acc' \<and> acc' ! (out ! n ! i) = rs ! n ! i))"
  using assms
proof (induction rs arbitrary: acc out acc')
  case Nil
  then show ?case by simp
next
  case (Cons r rs)
  obtain vertices acc1 where s1: "ring_indices r acc = (vertices, acc1)"
    by (cases "ring_indices r acc")
  obtain rest acc2 where s2: "index_faces rs acc1 = (rest, acc2)"
    by (cases "index_faces rs acc1")
  from Cons.prems(2) s1 s2 have out: "out = vertices # rest" and acc': "acc' = acc2"
    by simp_all
  from ring_indices_props[OF Cons.prems(1) s1]
  have d1: "distinct acc1" and e1: "\<exists>zs. acc1 = acc @ zs"
    and l1: "length vertices = length r"
    and i1: "\<forall>i<length r. vertices ! i < length acc1 \<and> acc1 ! (vertices ! i) = r ! i"
    by blast+
  from Cons.IH[OF d1 s2]
  have d2: "distinct acc2" and e2: "\<exists>zs. acc2 = acc1 @ zs"
    and l2: "length rest = length rs"
    and i2: "\<forall>n<length rs. length (rest ! n) = length (rs ! n) \<and>
            (\<forall>i<length (rs ! n). rest ! n ! i < length acc2 \<and> acc2 ! (rest ! n ! i) = rs ! n ! i)"
    by blast+
  from e1 e2 have ext: "\<exists>zs. acc2 = acc @ zs" by auto
  have i1': "\<forall>i<length r. vertices ! i < length acc2 \<and> acc2 ! (vertices ! i) = r ! i"
    using i1 e2 by (auto simp: nth_append)
  have "\<forall>n<length (r # rs). length ((vertices # rest) ! n) = length ((r # rs) ! n) \<and>
            (\<forall>i<length ((r # rs) ! n). (vertices # rest) ! n ! i < length acc2 \<and>
               acc2 ! ((vertices # rest) ! n ! i) = (r # rs) ! n ! i)"
  proof (intro allI impI)
    fix n assume "n < length (r # rs)"
    then show "length ((vertices # rest) ! n) = length ((r # rs) ! n) \<and>
            (\<forall>i<length ((r # rs) ! n). (vertices # rest) ! n ! i < length acc2 \<and>
               acc2 ! ((vertices # rest) ! n ! i) = (r # rs) ! n ! i)"
      using l1 i1' i2 by (cases n) auto
  qed
  with d2 ext l2 show ?case unfolding out acc' by simp
qed

lemma index_faces_same_index:
  assumes run: "index_faces rs [] = (out, acc)"
    and a: "a < length rs" and b: "b < length rs"
    and i: "i < length (rs ! a)" and j: "j < length (rs ! b)"
    and eq: "rs ! a ! i = rs ! b ! j"
  shows "out ! a ! i = out ! b ! j"
proof -
  from index_faces_props[OF _ run]
  have d: "distinct acc"
    and p: "\<forall>n<length rs. length (out ! n) = length (rs ! n) \<and>
            (\<forall>i<length (rs ! n). out ! n ! i < length acc \<and> acc ! (out ! n ! i) = rs ! n ! i)"
    by simp_all
  from p a i have pa: "out ! a ! i < length acc" "acc ! (out ! a ! i) = rs ! a ! i" by auto
  from p b j have pb: "out ! b ! j < length acc" "acc ! (out ! b ! j) = rs ! b ! j" by auto
  from pa pb eq have "acc ! (out ! a ! i) = acc ! (out ! b ! j)" by simp
  with d pa(1) pb(1) show ?thesis
    using nth_eq_iff_index_eq by blast
qed

lemma face_vertices_props:
  "distinct (all_vertices faces) \<and> length (face_vertices faces) = length faces \<and>
   (\<forall>n<length faces. length (face_vertices faces ! n) = length (butlast (faces ! n)) \<and>
      (\<forall>i<length (butlast (faces ! n)).
         face_vertices faces ! n ! i < length (all_vertices faces) \<and>
         all_vertices faces ! (face_vertices faces ! n ! i) = butlast (faces ! n) ! i))"
proof -
  obtain out acc where run: "index_faces (map butlast faces) [] = (out, acc)"
    by (cases "index_faces (map butlast faces) []")
  from index_faces_props[OF _ run] show ?thesis
    by (simp add: face_vertices_def all_vertices_def run)
qed

lemma face_line_nth:
  "i < length vertices \<Longrightarrow> face_line n vertices vt ! i = (vertices ! i + 1, vt ! i + 1, n + 1)"
  by (simp add: face_line_def nth_enumerate_eq)

lemma f_lines_nth:
  "n < length (face_vertices faces) \<Longrightarrow>
   f_lines faces surfaces ! n = face_line n (face_vertices faces ! n) (vt_index surfaces ! n)"
  by (simp add: f_lines_def nth_enumerate_eq)

text \<open>
  C8. When two faces have vertices with equal coordinates (the ends of a shared edge),
  their \<open>f\<close> lines carry the same vertex number for them: a 1-based position in
  \<open>all_vertices\<close>, the one list of the building, which holds that coordinate there
  and holds no coordinate twice.
\<close>

theorem shared_vertex_same_index:
  assumes a: "a < length faces" and c: "c < length faces"
    and i: "i < length (butlast (faces ! a))" and j: "j < length (butlast (faces ! c))"
    and eq: "butlast (faces ! a) ! i = butlast (faces ! c) ! j"
  shows "fst (f_lines faces surfaces ! a ! i) = fst (f_lines faces surfaces ! c ! j) \<and>
         1 \<le> fst (f_lines faces surfaces ! a ! i) \<and>
         fst (f_lines faces surfaces ! a ! i) \<le> length (all_vertices faces) \<and>
         all_vertices faces ! (fst (f_lines faces surfaces ! a ! i) - 1) = butlast (faces ! a) ! i \<and>
         distinct (all_vertices faces)"
proof -
  let ?fv = "face_vertices faces" and ?av = "all_vertices faces"
  from face_vertices_props[of faces]
  have d: "distinct ?av" and len: "length ?fv = length faces"
    and p: "\<forall>n<length faces. length (?fv ! n) = length (butlast (faces ! n)) \<and>
      (\<forall>i<length (butlast (faces ! n)). ?fv ! n ! i < length ?av \<and>
         ?av ! (?fv ! n ! i) = butlast (faces ! n) ! i)"
    by blast+
  from p a i have pa: "length (?fv ! a) = length (butlast (faces ! a))"
    "?fv ! a ! i < length ?av" "?av ! (?fv ! a ! i) = butlast (faces ! a) ! i"
    by auto
  from p c j have pc: "length (?fv ! c) = length (butlast (faces ! c))"
    "?fv ! c ! j < length ?av" "?av ! (?fv ! c ! j) = butlast (faces ! c) ! j"
    by auto
  from pa(3) pc(3) eq have "?av ! (?fv ! a ! i) = ?av ! (?fv ! c ! j)" by simp
  with d pa(2) pc(2) have same: "?fv ! a ! i = ?fv ! c ! j"
    using nth_eq_iff_index_eq by blast
  have la: "fst (f_lines faces surfaces ! a ! i) = ?fv ! a ! i + 1"
    using a i len pa(1) by (simp add: f_lines_nth face_line_nth)
  have lc: "fst (f_lines faces surfaces ! c ! j) = ?fv ! c ! j + 1"
    using c j len pc(1) by (simp add: f_lines_nth face_line_nth)
  from la lc same pa d show ?thesis by simp
qed

theorem shared_vertex_same_index_witness:
  "butlast ([floor_ring, wall_ring] ! 0) ! 3 = (0, 2, 0) \<and>
   butlast ([floor_ring, wall_ring] ! 1) ! 1 = (0, 2, 0) \<and>
   fst (f_lines [floor_ring, wall_ring] [floor_surface, wall_surface] ! 0 ! 3) =
   fst (f_lines [floor_ring, wall_ring] [floor_surface, wall_surface] ! 1 ! 1) \<and>
   all_vertices [floor_ring, wall_ring] !
     (fst (f_lines [floor_ring, wall_ring] [floor_surface, wall_surface] ! 0 ! 3) - 1) =
   butlast ([floor_ring, wall_ring] ! 0) ! 3"
proof -
  let ?faces = "[floor_ring, wall_ring]"
  have h1: "0 < length ?faces" and h2: "1 < length ?faces" by simp_all
  have h3: "3 < length (butlast (?faces ! 0))" by (simp add: floor_ring_def)
  have h4: "1 < length (butlast (?faces ! 1))" by (simp add: wall_ring_def)
  have v: "butlast (?faces ! 0) ! 3 = (0, 2, 0)" by (simp add: floor_ring_def)
  have w: "butlast (?faces ! 1) ! 1 = (0, 2, 0)" by (simp add: wall_ring_def)
  have h5: "butlast (?faces ! 0) ! 3 = butlast (?faces ! 1) ! 1"
    by (simp only: v w)
  from shared_vertex_same_index[OF h1 h2 h3 h4 h5, of "[floor_surface, wall_surface]"] v w
  show ?thesis by blast
qed

subsection \<open>Texture coordinates\<close>

lemma vt_index_props:
  "distinct (vt_list surfaces) \<and> length (vt_index surfaces) = length surfaces \<and>
   (\<forall>n<length surfaces.
      length (vt_index surfaces ! n) = length (face_texture_coords (surfaces ! n)) \<and>
      (\<forall>i<length (face_texture_coords (surfaces ! n)).
         vt_index surfaces ! n ! i < length (vt_list surfaces) \<and>
         vt_list surfaces ! (vt_index surfaces ! n ! i) = face_texture_coords (surfaces ! n) ! i))"
proof -
  obtain out acc where run: "index_faces (map face_texture_coords surfaces) [] = (out, acc)"
    by (cases "index_faces (map face_texture_coords surfaces) []")
  from index_faces_props[OF _ run] show ?thesis
    by (simp add: vt_index_def vt_list_def run)
qed

text \<open>
  C2, as stated, fails. The claim is that every face has a texture-coordinate list of
  its own. In the building of floor and wall, the third vertex of the wall gets position
  3: the wall has three coordinates, so this is no position in a list of the wall's
  own; it is the place of the floor's fourth coordinate in the one list \<open>vt_list\<close>,
  which holds four entries for the seven vertices of the two faces.
\<close>

theorem texture_coords_one_list_counterexample:
  "face_texture_coords wall_surface = [(0, 1), (1, 1), (0, 0)] \<and>
   vt_index [floor_surface, wall_surface] = [[0, 1, 2, 3], [0, 1, 3]] \<and>
   vt_list [floor_surface, wall_surface] = [(0, 1), (1, 1), (1, 0), (0, 0)] \<and>
   \<not> vt_index [floor_surface, wall_surface] ! 1 ! 2 < length (face_texture_coords wall_surface)"
  by code_simp

text \<open>
  C2, amended. The texture coordinates of all faces are looked up in one list for the
  building: equal coordinates, of one face or of two, get the same position in
  \<open>vt_list\<close>, which holds that coordinate there and holds no coordinate twice. What a
  face has of its own is its list of positions, \<open>vt_index[n]\<close>.
\<close>

theorem texture_coords_one_list:
  assumes a: "a < length surfaces" and c: "c < length surfaces"
    and i: "i < length (face_texture_coords (surfaces ! a))"
    and j: "j < length (face_texture_coords (surfaces ! c))"
    and eq: "face_texture_coords (surfaces ! a) ! i = face_texture_coords (surfaces ! c) ! j"
  shows "vt_index surfaces ! a ! i = vt_index surfaces ! c ! j \<and>
         vt_index surfaces ! a ! i < length (vt_list surfaces) \<and>
         vt_list surfaces ! (vt_index surfaces ! a ! i) = face_texture_coords (surfaces ! a) ! i \<and>
         distinct (vt_list surfaces)"
proof -
  let ?vi = "vt_index surfaces" and ?vl = "vt_list surfaces"
  from vt_index_props[of surfaces]
  have d: "distinct ?vl"
    and p: "\<forall>n<length surfaces.
      length (?vi ! n) = length (face_texture_coords (surfaces ! n)) \<and>
      (\<forall>i<length (face_texture_coords (surfaces ! n)).
         ?vi ! n ! i < length ?vl \<and> ?vl ! (?vi ! n ! i) = face_texture_coords (surfaces ! n) ! i)"
    by blast+
  from p a i have pa: "?vi ! a ! i < length ?vl"
    "?vl ! (?vi ! a ! i) = face_texture_coords (surfaces ! a) ! i" by auto
  from p c j have pc: "?vi ! c ! j < length ?vl"
    "?vl ! (?vi ! c ! j) = face_texture_coords (surfaces ! c) ! j" by auto
  from pa(2) pc(2) eq have "?vl ! (?vi ! a ! i) = ?vl ! (?vi ! c ! j)" by simp
  with d pa(1) pc(1) have "?vi ! a ! i = ?vi ! c ! j"
    using nth_eq_iff_index_eq by blast
  with pa d show ?thesis by simp
qed

theorem texture_coords_one_list_witness:
  "face_texture_coords ([floor_surface, wall_surface] ! 0) ! 3 = (0, 0) \<and>
   face_texture_coords ([floor_surface, wall_surface] ! 1) ! 2 = (0, 0) \<and>
   vt_index [floor_surface, wall_surface] ! 0 ! 3 = vt_index [floor_surface, wall_surface] ! 1 ! 2 \<and>
   vt_list [floor_surface, wall_surface] ! (vt_index [floor_surface, wall_surface] ! 0 ! 3) =
     face_texture_coords ([floor_surface, wall_surface] ! 0) ! 3"
proof -
  let ?ss = "[floor_surface, wall_surface]"
  have h1: "0 < length ?ss" and h2: "1 < length ?ss" by simp_all
  have v: "face_texture_coords (?ss ! 0) ! 3 = (0, 0)" by code_simp
  have w: "face_texture_coords (?ss ! 1) ! 2 = (0, 0)" by code_simp
  have h3: "3 < length (face_texture_coords (?ss ! 0))" by code_simp
  have h4: "2 < length (face_texture_coords (?ss ! 1))" by code_simp
  have h5: "face_texture_coords (?ss ! 0) ! 3 = face_texture_coords (?ss ! 1) ! 2"
    by (simp only: v w)
  from texture_coords_one_list[OF h1 h2 h3 h4 h5] v w
  show ?thesis by blast
qed

subsection \<open>The example building is what \<open>calc_basic_metrics\<close> makes of its rings\<close>

lemma floor_surface_computed: "calc_basic_metrics 0 floor_ring = Inr floor_surface"
  by (simp add: calc_basic_metrics_def floor_ring_def floor_surface_def basis_matrix_def
      matmul_row_def norm3_def Let_def)

lemma wall_surface_computed: "calc_basic_metrics 1 wall_ring = Inr wall_surface"
  by (simp add: calc_basic_metrics_def wall_ring_def wall_surface_def basis_matrix_def
      matmul_row_def norm3_def Let_def)

lemma example_surfaces_computed:
  "make_surfaces 0 [floor_ring, wall_ring] = Inr [floor_surface, wall_surface]"
  using floor_surface_computed wall_surface_computed by simp

subsection \<open>Which faces get a row of the distance matrix\<close>

lemma amin_in_set: "xs \<noteq> [] \<Longrightarrow> amin xs \<in> set xs"
  by (induction xs rule: amin.induct) (auto simp: min_def)

lemma amax_in_set: "xs \<noteq> [] \<Longrightarrow> amax xs \<in> set xs"
  by (induction xs rule: amax.induct) (auto simp: max_def)

lemma amin_le: "x \<in> set xs \<Longrightarrow> amin xs \<le> x"
  by (induction xs rule: amin.induct) auto

lemma amax_ge: "x \<in> set xs \<Longrightarrow> x \<le> amax xs"
  by (induction xs rule: amax.induct) auto

lemma length_get_projected_points [simp]:
  "length (get_projected_points s pc) = length (points pc)"
  by (simp add: get_projected_points_def)

lemma length_get_distance_matrix [simp]:
  "length (get_distance_matrix s pc) = length (points pc)"
  by (simp add: get_distance_matrix_def)

lemma get_distance_matrix_Nil_iff [simp]:
  "(get_distance_matrix s pc = []) = (points pc = [])"
  by (simp add: get_distance_matrix_def get_projected_points_def)

lemma get_distance_matrix_nonneg: "d \<in> set (get_distance_matrix s pc) \<Longrightarrow> 0 \<le> d"
  by (auto simp: get_distance_matrix_def)

lemma penalised_row_excluded:
  assumes "points pc \<noteq> []"
  shows "amin (map (\<lambda>d. d + 9999 / 10) (get_distance_matrix s pc)) > 10"
proof -
  let ?ds = "map (\<lambda>d. d + 9999 / 10) (get_distance_matrix s pc)"
  from assms have "?ds \<noteq> []" by (simp add: get_distance_matrix_def get_projected_points_def)
  then have "amin ?ds \<in> set ?ds" by (rule amin_in_set)
  then obtain d where "d \<in> set (get_distance_matrix s pc)" and "amin ?ds = d + 9999 / 10"
    by auto
  with get_distance_matrix_nonneg[of d s pc] show ?thesis by simp
qed

lemma distance_rows_excluded:
  assumes "points pc = [] \<or> (l = 1 \<and> (n = 0 \<or> int n = int N - 1)) \<or>
           amin (get_distance_matrix s pc) > 10"
  shows "distance_rows l pc N n k (s # ss) =
         (None # fst (distance_rows l pc N (n + 1) k ss),
          snd (distance_rows l pc N (n + 1) k ss))"
proof (cases "points pc = []")
  case True
  then show ?thesis by (simp add: split_beta Let_def)
next
  case False
  note ne = this
  show ?thesis
  proof (cases "l = 1 \<and> (n = 0 \<or> int n = int N - 1)")
    case True
    with ne penalised_row_excluded[OF ne, of s] show ?thesis
      by (simp add: split_beta Let_def)
  next
    case False
    with assms ne have "amin (get_distance_matrix s pc) > 10" by blast
    with False ne show ?thesis
      by (auto simp: split_beta Let_def)
  qed
qed

lemma distance_rows_kept:
  assumes "\<not> (points pc = [] \<or> (l = 1 \<and> (n = 0 \<or> int n = int N - 1)) \<or>
           amin (get_distance_matrix s pc) > 10)"
  shows "distance_rows l pc N n k (s # ss) =
         (Some k # fst (distance_rows l pc N (n + 1) (k + 1) ss),
          get_distance_matrix s pc # snd (distance_rows l pc N (n + 1) (k + 1) ss))"
  using assms by (auto simp: split_beta Let_def)

lemma distance_rows_props:
  assumes "distance_rows l pc N n k ss = (nk, rows)"
  shows "length nk = length ss \<and>
    (\<forall>i<length ss. (nk ! i = None) =
        (points pc = [] \<or> (l = 1 \<and> (n + i = 0 \<or> int (n + i) = int N - 1)) \<or>
         amin (get_distance_matrix (ss ! i) pc) > 10)) \<and>
    (\<forall>i<length ss. \<forall>k'. nk ! i = Some k' \<longrightarrow>
        k \<le> k' \<and> k' - k < length rows \<and> rows ! (k' - k) = get_distance_matrix (ss ! i) pc)"
  using assms
proof (induction ss arbitrary: n k nk rows)
  case Nil
  then show ?case by simp
next
  case (Cons s ss)
  let ?excl = "points pc = [] \<or> (l = 1 \<and> (n = 0 \<or> int n = int N - 1)) \<or>
         amin (get_distance_matrix s pc) > 10"
  show ?case
  proof (cases ?excl)
    case True
    obtain nk1 rows1 where r: "distance_rows l pc N (n + 1) k ss = (nk1, rows1)"
      by (cases "distance_rows l pc N (n + 1) k ss")
    from distance_rows_excluded[OF True, where k=k and ss=ss] r
    have "distance_rows l pc N n k (s # ss) = (None # nk1, rows1)" by simp
    with Cons.prems have nk: "nk = None # nk1" and rows: "rows = rows1" by simp_all
    note ih = Cons.IH[OF r]
    from ih have l1: "length nk1 = length ss" by (rule conjunct1)
    from ih have e1: "\<forall>i<length ss. (nk1 ! i = None) =
        (points pc = [] \<or> (l = 1 \<and> (n + 1 + i = 0 \<or> int (n + 1 + i) = int N - 1)) \<or>
         amin (get_distance_matrix (ss ! i) pc) > 10)"
      by (rule conjunct2[THEN conjunct1])
    from ih have s1: "\<forall>i<length ss. \<forall>k'. nk1 ! i = Some k' \<longrightarrow>
        k \<le> k' \<and> k' - k < length rows1 \<and> rows1 ! (k' - k) = get_distance_matrix (ss ! i) pc"
      by (rule conjunct2[THEN conjunct2])
    have "\<forall>i<length (s # ss). ((None # nk1) ! i = None) =
        (points pc = [] \<or> (l = 1 \<and> (n + i = 0 \<or> int (n + i) = int N - 1)) \<or>
         amin (get_distance_matrix ((s # ss) ! i) pc) > 10)"
    proof (intro allI impI)
      fix i assume "i < length (s # ss)"
      then show "((None # nk1) ! i = None) =
        (points pc = [] \<or> (l = 1 \<and> (n + i = 0 \<or> int (n + i) = int N - 1)) \<or>
         amin (get_distance_matrix ((s # ss) ! i) pc) > 10)"
      proof (cases i)
        case 0
        with True show ?thesis by simp
      next
        case (Suc j)
        with \<open>i < length (s # ss)\<close> have j: "j < length ss" by simp
        have "n + Suc j = n + 1 + j" by simp
        with e1[rule_format, OF j] Suc show ?thesis by (simp del: of_nat_add of_nat_Suc)
      qed
    qed
    moreover have "\<forall>i<length (s # ss). \<forall>k'. (None # nk1) ! i = Some k' \<longrightarrow>
        k \<le> k' \<and> k' - k < length rows1 \<and>
        rows1 ! (k' - k) = get_distance_matrix ((s # ss) ! i) pc"
    proof (intro allI impI)
      fix i k' assume "i < length (s # ss)" and "(None # nk1) ! i = Some k'"
      then show "k \<le> k' \<and> k' - k < length rows1 \<and>
        rows1 ! (k' - k) = get_distance_matrix ((s # ss) ! i) pc"
        using s1 by (cases i) auto
    qed
    moreover have "length (hd nk # nk1) = length (s # ss)" using l1 by simp
    ultimately show ?thesis unfolding nk rows list.sel by blast
  next
    case False
    obtain nk1 rows1 where r: "distance_rows l pc N (n + 1) (k + 1) ss = (nk1, rows1)"
      by (cases "distance_rows l pc N (n + 1) (k + 1) ss")
    from distance_rows_kept[OF False, where k=k and ss=ss] r
    have "distance_rows l pc N n k (s # ss) =
        (Some k # nk1, get_distance_matrix s pc # rows1)" by simp
    with Cons.prems have nk: "nk = Some k # nk1"
      and rows: "rows = get_distance_matrix s pc # rows1" by simp_all
    note ih = Cons.IH[OF r]
    from ih have l1: "length nk1 = length ss" by (rule conjunct1)
    from ih have e1: "\<forall>i<length ss. (nk1 ! i = None) =
        (points pc = [] \<or> (l = 1 \<and> (n + 1 + i = 0 \<or> int (n + 1 + i) = int N - 1)) \<or>
         amin (get_distance_matrix (ss ! i) pc) > 10)"
      by (rule conjunct2[THEN conjunct1])
    from ih have s1: "\<forall>i<length ss. \<forall>k'. nk1 ! i = Some k' \<longrightarrow>
        k + 1 \<le> k' \<and> k' - (k + 1) < length rows1 \<and>
        rows1 ! (k' - (k + 1)) = get_distance_matrix (ss ! i) pc"
      by (rule conjunct2[THEN conjunct2])
    have "\<forall>i<length (s # ss). ((Some k # nk1) ! i = None) =
        (points pc = [] \<or> (l = 1 \<and> (n + i = 0 \<or> int (n + i) = int N - 1)) \<or>
         amin (get_distance_matrix ((s # ss) ! i) pc) > 10)"
    proof (intro allI impI)
      fix i assume "i < length (s # ss)"
      then show "((Some k # nk1) ! i = None) =
        (points pc = [] \<or> (l = 1 \<and> (n + i = 0 \<or> int (n + i) = int N - 1)) \<or>
         amin (get_distance_matrix ((s # ss) ! i) pc) > 10)"
      proof (cases i)
        case 0
        with False show ?thesis by simp
      next
        case (Suc j)
        with \<open>i < length (s # ss)\<close> have j: "j < length ss" by simp
        have "n + Suc j = n + 1 + j" by simp
        with e1[rule_format, OF j] Suc show ?thesis by (simp del: of_nat_add of_nat_Suc)
      qed
    qed
    moreover have "\<forall>i<length (s # ss). \<forall>k'. (Some k # nk1) ! i = Some k' \<longrightarrow>
        k \<le> k' \<and> k' - k < length (get_distance_matrix s pc # rows1) \<and>
        (get_distance_matrix s pc # rows1) ! (k' - k) = get_distance_matrix ((s # ss) ! i) pc"
    proof (intro allI impI)
      fix i k' assume i: "i < length (s # ss)" and k': "(Some k # nk1) ! i = Some k'"
      show "k \<le> k' \<and> k' - k < length (get_distance_matrix s pc # rows1) \<and>
        (get_distance_matrix s pc # rows1) ! (k' - k) = get_distance_matrix ((s # ss) ! i) pc"
      proof (cases i)
        case 0
        with k' show ?thesis by simp
      next
        case (Suc j)
        with i k' s1 have a: "k + 1 \<le> k'" "k' - (k + 1) < length rows1"
          "rows1 ! (k' - (k + 1)) = get_distance_matrix (ss ! j) pc" by auto
        from a(1) have "k' - k = Suc (k' - (k + 1))" by simp
        with a Suc show ?thesis by simp
      qed
    qed
    moreover have "length (hd nk # nk1) = length (s # ss)" using l1 by simp
    ultimately show ?thesis unfolding nk rows list.sel by blast
  qed
qed

lemma distance_rows_length_rows:
  "distance_rows l pc N n k ss = (nk, rows) \<Longrightarrow> \<forall>r\<in>set rows. length r = length (points pc)"
proof (induction ss arbitrary: n k nk rows)
  case Nil
  then show ?case by simp
next
  case (Cons s ss)
  let ?excl = "points pc = [] \<or> (l = 1 \<and> (n = 0 \<or> int n = int N - 1)) \<or>
         amin (get_distance_matrix s pc) > 10"
  show ?case
  proof (cases ?excl)
    case True
    obtain nk1 rows1 where r: "distance_rows l pc N (n + 1) k ss = (nk1, rows1)"
      by (cases "distance_rows l pc N (n + 1) k ss")
    from distance_rows_excluded[OF True, where k=k and ss=ss] r Cons.prems
    have "rows = rows1" by simp
    with Cons.IH[OF r] show ?thesis by simp
  next
    case False
    obtain nk1 rows1 where r: "distance_rows l pc N (n + 1) (k + 1) ss = (nk1, rows1)"
      by (cases "distance_rows l pc N (n + 1) (k + 1) ss")
    from distance_rows_kept[OF False, where k=k and ss=ss] r Cons.prems
    have "rows = get_distance_matrix s pc # rows1" by simp
    with Cons.IH[OF r] show ?thesis by simp
  qed
qed

lemma argmin_props:
  "xs \<noteq> [] \<Longrightarrow>
   argmin xs < length xs \<and> (\<forall>j<length xs. xs ! argmin xs \<le> xs ! j) \<and>
   (\<forall>j<argmin xs. xs ! argmin xs < xs ! j)"
proof (induction xs rule: argmin.induct)
  case 1
  then show ?case by simp
next
  case (2 x)
  then show ?case by simp
next
  case (3 x y ys)
  let ?j = "argmin (y # ys)"
  from 3 have ih: "?j < length (y # ys)" "\<forall>j<length (y # ys). (y # ys) ! ?j \<le> (y # ys) ! j"
    "\<forall>j<?j. (y # ys) ! ?j < (y # ys) ! j"
    by simp_all
  show ?case
  proof (cases "x \<le> (y # ys) ! ?j")
    case True
    then have a: "argmin (x # y # ys) = 0" by (simp add: Let_def)
    have "\<forall>j<length (x # y # ys). x \<le> (x # y # ys) ! j"
    proof (intro allI impI)
      fix j assume "j < length (x # y # ys)"
      then show "x \<le> (x # y # ys) ! j"
        using True ih(2) by (cases j) (auto intro: order_trans)
    qed
    with a show ?thesis by simp
  next
    case False
    then have a: "argmin (x # y # ys) = Suc ?j" by (simp add: Let_def)
    have b: "\<forall>j<length (x # y # ys). (y # ys) ! ?j \<le> (x # y # ys) ! j"
    proof (intro allI impI)
      fix j assume "j < length (x # y # ys)"
      then show "(y # ys) ! ?j \<le> (x # y # ys) ! j"
        using False ih(2) by (cases j) auto
    qed
    have c: "\<forall>j<Suc ?j. (y # ys) ! ?j < (x # y # ys) ! j"
    proof (intro allI impI)
      fix j assume "j < Suc ?j"
      then show "(y # ys) ! ?j < (x # y # ys) ! j"
        using False ih(3) by (cases j) auto
    qed
    from ih(1) b c show ?thesis unfolding a by simp
  qed
qed

lemma argmin_eq_iff:
  assumes "xs \<noteq> []"
  shows "(argmin xs = k) =
         (k < length xs \<and> (\<forall>j<length xs. xs ! k \<le> xs ! j) \<and> (\<forall>j<k. xs ! k < xs ! j))"
proof
  assume "argmin xs = k"
  with argmin_props[OF assms] show
    "k < length xs \<and> (\<forall>j<length xs. xs ! k \<le> xs ! j) \<and> (\<forall>j<k. xs ! k < xs ! j)"
    by blast
next
  assume r: "k < length xs \<and> (\<forall>j<length xs. xs ! k \<le> xs ! j) \<and> (\<forall>j<k. xs ! k < xs ! j)"
  let ?a = "argmin xs"
  from argmin_props[OF assms]
  have p: "?a < length xs" "\<forall>j<length xs. xs ! ?a \<le> xs ! j" "\<forall>j<?a. xs ! ?a < xs ! j"
    by simp_all
  show "?a = k"
  proof (rule ccontr)
    assume "?a \<noteq> k"
    then consider "?a < k" | "k < ?a" by linarith
    then show False
    proof cases
      case 1
      with r have "xs ! k < xs ! ?a" by blast
      moreover from p(2) r have "xs ! ?a \<le> xs ! k" by blast
      ultimately show False by simp
    next
      case 2
      with p(3) have "xs ! ?a < xs ! k" by blast
      moreover from r p(1) have "xs ! k \<le> xs ! ?a" by blast
      ultimately show False by simp
    qed
  qed
qed

lemma nearest_face_nth:
  assumes "m \<noteq> []" and "\<forall>r\<in>set m. length r = np" and "i < np"
  shows "\<exists>nf. nearest_face m = Some nf \<and> length nf = np \<and>
           (\<forall>k. (nf ! i = k) =
              (k < length m \<and> (\<forall>k'<length m. m ! k ! i \<le> m ! k' ! i) \<and>
               (\<forall>k'<k. m ! k ! i < m ! k' ! i)))"
proof -
  from assms(1,2) have hd: "length (hd m) = np" by (cases m) auto
  let ?nf = "map (\<lambda>j. argmin (matrix_column m j)) [0..<np]"
  from assms(1) hd have nf: "nearest_face m = Some ?nf"
    by (simp add: nearest_face_def)
  have col: "matrix_column m i \<noteq> []" "length (matrix_column m i) = length m"
    using assms(1) by (simp_all add: matrix_column_def)
  have "\<forall>k. (?nf ! i = k) =
              (k < length m \<and> (\<forall>k'<length m. m ! k ! i \<le> m ! k' ! i) \<and>
               (\<forall>k'<k. m ! k ! i < m ! k' ! i))"
  proof
    fix k
    have "(?nf ! i = k) = (argmin (matrix_column m i) = k)"
      using assms(3) by simp
    also have "\<dots> = (k < length m \<and> (\<forall>j<length m. matrix_column m i ! k \<le> matrix_column m i ! j) \<and>
        (\<forall>j<k. matrix_column m i ! k < matrix_column m i ! j))"
      using argmin_eq_iff[OF col(1), of k] col(2) by simp
    also have "\<dots> = (k < length m \<and> (\<forall>k'<length m. m ! k ! i \<le> m ! k' ! i) \<and>
               (\<forall>k'<k. m ! k ! i < m ! k' ! i))"
      by (auto simp: matrix_column_def)
    finally show "(?nf ! i = k) =
              (k < length m \<and> (\<forall>k'<length m. m ! k ! i \<le> m ! k' ! i) \<and>
               (\<forall>k'<k. m ! k ! i < m ! k' ! i))" .
  qed
  with nf show ?thesis by simp
qed

lemma nkmap_props:
  assumes "n < length surfaces"
  shows "(nkmap l surfaces pc ! n = None) =
           (points pc = [] \<or> (l = 1 \<and> (n = 0 \<or> n = length surfaces - 1)) \<or>
            amin (face_distances surfaces pc n) > 10)"
    and "nkmap l surfaces pc ! n = Some k \<Longrightarrow>
           k < length (distance_matrix l surfaces pc) \<and>
           distance_matrix l surfaces pc ! k = face_distances surfaces pc n"
    and "\<forall>r\<in>set (distance_matrix l surfaces pc). length r = length (points pc)"
proof -
  obtain nk rows where run: "distance_rows l pc (length surfaces) 0 0 surfaces = (nk, rows)"
    by (cases "distance_rows l pc (length surfaces) 0 0 surfaces")
  note p = distance_rows_props[OF run]
  from assms have eq: "(int n = int (length surfaces) - 1) = (n = length surfaces - 1)"
    by auto
  from p[THEN conjunct2, THEN conjunct1, rule_format, OF assms]
  show "(nkmap l surfaces pc ! n = None) =
           (points pc = [] \<or> (l = 1 \<and> (n = 0 \<or> n = length surfaces - 1)) \<or>
            amin (face_distances surfaces pc n) > 10)"
    by (simp add: nkmap_def run face_distances_def eq)
  show "nkmap l surfaces pc ! n = Some k \<Longrightarrow>
           k < length (distance_matrix l surfaces pc) \<and>
           distance_matrix l surfaces pc ! k = face_distances surfaces pc n"
    using p[THEN conjunct2, THEN conjunct2, rule_format, OF assms, of k]
    by (simp add: nkmap_def distance_matrix_def run face_distances_def)
  from distance_rows_length_rows[OF run]
  show "\<forall>r\<in>set (distance_matrix l surfaces pc). length r = length (points pc)"
    by (simp add: distance_matrix_def run)
qed

lemma amin_eq_Min: "xs \<noteq> [] \<Longrightarrow> amin xs = Min (set xs)"
  by (induction xs rule: amin.induct) simp_all

lemma amax_eq_Max: "xs \<noteq> [] \<Longrightarrow> amax xs = Max (set xs)"
  by (induction xs rule: amax.induct) simp_all

lemma select_map: "select bs (map f xs) = map f (select bs xs)"
proof -
  have "zip bs (map f xs) = map (\<lambda>(b, x). (b, f x)) (zip bs xs)"
    by (simp add: zip_map2)
  then show ?thesis
    by (simp add: select_def filter_map o_def split_beta)
qed

lemma set_select:
  assumes "length bs = length xs"
  shows "set (select bs xs) = {xs ! j | j. j < length xs \<and> bs ! j}"
proof -
  have "set (select bs xs) = snd ` {p \<in> set (zip bs xs). fst p}"
    by (simp add: select_def)
  also have "\<dots> = {xs ! j | j. j < length xs \<and> bs ! j}"
    using assms by (auto simp: set_zip image_iff) force
  finally show ?thesis .
qed

lemma distance_rows_rows:
  assumes "distance_rows l pc N n k ss = (nk, rows)"
  shows "(\<forall>j<length rows. \<exists>i<length ss. nk ! i = Some (k + j)) \<and>
         (\<forall>i<length ss. \<forall>i'<length ss. \<forall>a.
            nk ! i = Some a \<and> nk ! i' = Some a \<longrightarrow> i = i')"
  using assms
proof (induction ss arbitrary: n k nk rows)
  case Nil
  then show ?case by simp
next
  case (Cons s ss)
  let ?excl = "points pc = [] \<or> (l = 1 \<and> (n = 0 \<or> int n = int N - 1)) \<or>
         amin (get_distance_matrix s pc) > 10"
  show ?case
  proof (cases ?excl)
    case True
    obtain nk1 rows1 where r: "distance_rows l pc N (n + 1) k ss = (nk1, rows1)"
      by (cases "distance_rows l pc N (n + 1) k ss")
    from distance_rows_excluded[OF True, where k=k and ss=ss] r
    have "distance_rows l pc N n k (s # ss) = (None # nk1, rows1)" by simp
    with Cons.prems have nk: "nk = None # nk1" and rows: "rows = rows1" by simp_all
    note ih = Cons.IH[OF r]
    from ih have sur: "\<forall>j<length rows1. \<exists>i<length ss. nk1 ! i = Some (k + j)"
      by (rule conjunct1)
    from ih have inj: "\<forall>i<length ss. \<forall>i'<length ss. \<forall>a.
            nk1 ! i = Some a \<and> nk1 ! i' = Some a \<longrightarrow> i = i'"
      by (rule conjunct2)
    have A: "\<forall>j<length rows1. \<exists>i<length (s # ss). (None # nk1) ! i = Some (k + j)"
    proof (intro allI impI)
      fix j assume "j < length rows1"
      with sur obtain i where "i < length ss" "nk1 ! i = Some (k + j)" by blast
      then show "\<exists>i<length (s # ss). (None # nk1) ! i = Some (k + j)"
        by (intro exI[of _ "Suc i"]) simp
    qed
    have B: "\<forall>i<length (s # ss). \<forall>i'<length (s # ss). \<forall>a.
            (None # nk1) ! i = Some a \<and> (None # nk1) ! i' = Some a \<longrightarrow> i = i'"
    proof (intro allI impI)
      fix i i' a
      assume i: "i < length (s # ss)" and i': "i' < length (s # ss)"
        and e: "(None # nk1) ! i = Some a \<and> (None # nk1) ! i' = Some a"
      from e obtain j where ij: "i = Suc j" by (cases i) auto
      from e obtain j' where ij': "i' = Suc j'" by (cases i') auto
      from i i' e ij ij' have "j < length ss" "j' < length ss"
        "nk1 ! j = Some a \<and> nk1 ! j' = Some a" by simp_all
      with inj have "j = j'" by blast
      with ij ij' show "i = i'" by simp
    qed
    from A B show ?thesis unfolding nk rows by blast
  next
    case False
    obtain nk1 rows1 where r: "distance_rows l pc N (n + 1) (k + 1) ss = (nk1, rows1)"
      by (cases "distance_rows l pc N (n + 1) (k + 1) ss")
    from distance_rows_kept[OF False, where k=k and ss=ss] r
    have "distance_rows l pc N n k (s # ss) =
        (Some k # nk1, get_distance_matrix s pc # rows1)" by simp
    with Cons.prems have nk: "nk = Some k # nk1"
      and rows: "rows = get_distance_matrix s pc # rows1" by simp_all
    note ih = Cons.IH[OF r]
    from ih have sur: "\<forall>j<length rows1. \<exists>i<length ss. nk1 ! i = Some (k + 1 + j)"
      by (rule conjunct1)
    from ih have inj: "\<forall>i<length ss. \<forall>i'<length ss. \<forall>a.
            nk1 ! i = Some a \<and> nk1 ! i' = Some a \<longrightarrow> i = i'"
      by (rule conjunct2)
    note p = distance_rows_props[OF r]
    from p have low: "\<forall>i<length ss. \<forall>k'. nk1 ! i = Some k' \<longrightarrow>
        k + 1 \<le> k' \<and> k' - (k + 1) < length rows1 \<and>
        rows1 ! (k' - (k + 1)) = get_distance_matrix (ss ! i) pc"
      by (rule conjunct2[THEN conjunct2])
    have A: "\<forall>j<length (get_distance_matrix s pc # rows1).
               \<exists>i<length (s # ss). (Some k # nk1) ! i = Some (k + j)"
    proof (intro allI impI)
      fix j assume j: "j < length (get_distance_matrix s pc # rows1)"
      show "\<exists>i<length (s # ss). (Some k # nk1) ! i = Some (k + j)"
      proof (cases j)
        case 0
        then show ?thesis by (intro exI[of _ 0]) simp
      next
        case (Suc j')
        with j have "j' < length rows1" by simp
        with sur obtain i where "i < length ss" "nk1 ! i = Some (k + 1 + j')" by blast
        with Suc show ?thesis by (intro exI[of _ "Suc i"]) simp
      qed
    qed
    have B: "\<forall>i<length (s # ss). \<forall>i'<length (s # ss). \<forall>a.
            (Some k # nk1) ! i = Some a \<and> (Some k # nk1) ! i' = Some a \<longrightarrow> i = i'"
    proof (intro allI impI)
      fix i i' a
      assume i: "i < length (s # ss)" and i': "i' < length (s # ss)"
        and e: "(Some k # nk1) ! i = Some a \<and> (Some k # nk1) ! i' = Some a"
      show "i = i'"
      proof (cases i)
        case 0
        with e have a: "a = k" by simp
        show ?thesis
        proof (cases i')
          case 0
          with \<open>i = 0\<close> show ?thesis by simp
        next
          case (Suc j')
          with i' e a have "j' < length ss" "nk1 ! j' = Some k" by simp_all
          with low have "k + 1 \<le> k" by blast
          then show ?thesis by simp
        qed
      next
        case (Suc j)
        with i e have j: "j < length ss" "nk1 ! j = Some a" by simp_all
        show ?thesis
        proof (cases i')
          case 0
          with e have "a = k" by simp
          with j low have "k + 1 \<le> k" by blast
          then show ?thesis by simp
        next
          case (Suc j')
          with i' e have "j' < length ss" "nk1 ! j' = Some a" by simp_all
          with j inj have "j = j'" by blast
          with \<open>i = Suc j\<close> Suc show ?thesis by simp
        qed
      qed
    qed
    from A B show ?thesis unfolding nk rows by blast
  qed
qed

lemma nkmap_rows:
  "length (nkmap l surfaces pc) = length surfaces"
  "\<forall>k<length (distance_matrix l surfaces pc).
      \<exists>n<length surfaces. nkmap l surfaces pc ! n = Some k"
  "\<forall>n<length surfaces. \<forall>n'<length surfaces. \<forall>k.
      nkmap l surfaces pc ! n = Some k \<and> nkmap l surfaces pc ! n' = Some k \<longrightarrow> n = n'"
proof -
  obtain nk rows where run: "distance_rows l pc (length surfaces) 0 0 surfaces = (nk, rows)"
    by (cases "distance_rows l pc (length surfaces) 0 0 surfaces")
  from distance_rows_props[OF run] show "length (nkmap l surfaces pc) = length surfaces"
    by (simp add: nkmap_def run)
  note r = distance_rows_rows[OF run]
  from r[THEN conjunct1]
  show "\<forall>k<length (distance_matrix l surfaces pc).
      \<exists>n<length surfaces. nkmap l surfaces pc ! n = Some k"
    by (simp add: nkmap_def distance_matrix_def run)
  from r[THEN conjunct2]
  show "\<forall>n<length surfaces. \<forall>n'<length surfaces. \<forall>k.
      nkmap l surfaces pc ! n = Some k \<and> nkmap l surfaces pc ! n' = Some k \<longrightarrow> n = n'"
    by (simp add: nkmap_def run)
qed

text \<open>
  C3, as stated, fails. With \<open>lod = 1\<close> the floor, the first face, has a point at
  distance 1/5, well within 10, and still gets no row: the matrix is empty.
\<close>

theorem caps_excluded_counterexample:
  "amin (face_distances [floor_surface, wall_surface] three_points 0) \<le> 10 \<and>
   nkmap 1 [floor_surface, wall_surface] three_points ! 0 = None \<and>
   distance_matrix 1 [floor_surface, wall_surface] three_points = []"
  by code_simp

text \<open>
  C3, amended. Face \<open>n\<close> gets no row exactly when the point cloud is empty, or
  \<open>lod = 1\<close> and the face is the first or the last of the building, or the least of
  its distance values exceeds 10. With \<open>lod = 1\<close> the penalty is added to the first
  and the last face before the test against 10, so these two never get a row. The rows
  of the matrix and the faces that get one correspond one to one: the row of such a
  face is its distance vector without penalty, and every row of the matrix is the row
  of exactly one face, which is not a penalised one and has a distance value of at
  most 10.
\<close>

theorem face_excluded_iff:
  assumes "n < length surfaces"
  shows "(nkmap l surfaces pc ! n = None) =
           (points pc = [] \<or> (l = 1 \<and> (n = 0 \<or> n = length surfaces - 1)) \<or>
            amin (face_distances surfaces pc n) > 10) \<and>
         (\<forall>k. nkmap l surfaces pc ! n = Some k \<longrightarrow>
            k < length (distance_matrix l surfaces pc) \<and>
            distance_matrix l surfaces pc ! k = face_distances surfaces pc n) \<and>
         length (nkmap l surfaces pc) = length surfaces \<and>
         (\<forall>k<length (distance_matrix l surfaces pc).
            \<exists>n'<length surfaces.
              nkmap l surfaces pc ! n' = Some k \<and>
              distance_matrix l surfaces pc ! k = face_distances surfaces pc n' \<and>
              points pc \<noteq> [] \<and>
              \<not> (l = 1 \<and> (n' = 0 \<or> n' = length surfaces - 1)) \<and>
              amin (face_distances surfaces pc n') \<le> 10 \<and>
              (\<forall>n''<length surfaces. nkmap l surfaces pc ! n'' = Some k \<longrightarrow> n'' = n'))"
proof (intro conjI allI impI)
  show "(nkmap l surfaces pc ! n = None) =
           (points pc = [] \<or> (l = 1 \<and> (n = 0 \<or> n = length surfaces - 1)) \<or>
            amin (face_distances surfaces pc n) > 10)"
    by (rule nkmap_props(1)[OF assms])
next
  fix k assume "nkmap l surfaces pc ! n = Some k"
  from nkmap_props(2)[OF assms this]
  show "k < length (distance_matrix l surfaces pc)"
    and "distance_matrix l surfaces pc ! k = face_distances surfaces pc n"
    by simp_all
next
  show "length (nkmap l surfaces pc) = length surfaces" by (rule nkmap_rows(1))
next
  fix k assume k: "k < length (distance_matrix l surfaces pc)"
  with nkmap_rows(2)[of l surfaces pc] obtain n' where
    n': "n' < length surfaces" and s: "nkmap l surfaces pc ! n' = Some k"
    by blast
  from nkmap_props(2)[OF n' s]
  have row: "distance_matrix l surfaces pc ! k = face_distances surfaces pc n'" by simp
  from s have "nkmap l surfaces pc ! n' \<noteq> None" by simp
  with nkmap_props(1)[OF n', of l pc]
  have kept: "points pc \<noteq> []" "\<not> (l = 1 \<and> (n' = 0 \<or> n' = length surfaces - 1))"
    "amin (face_distances surfaces pc n') \<le> 10"
    by auto
  have uniq: "\<forall>n''<length surfaces. nkmap l surfaces pc ! n'' = Some k \<longrightarrow> n'' = n'"
    using nkmap_rows(3)[of surfaces l pc] n' s by blast
  from n' s row kept uniq
  show "\<exists>n'<length surfaces.
              nkmap l surfaces pc ! n' = Some k \<and>
              distance_matrix l surfaces pc ! k = face_distances surfaces pc n' \<and>
              points pc \<noteq> [] \<and>
              \<not> (l = 1 \<and> (n' = 0 \<or> n' = length surfaces - 1)) \<and>
              amin (face_distances surfaces pc n') \<le> 10 \<and>
              (\<forall>n''<length surfaces. nkmap l surfaces pc ! n'' = Some k \<longrightarrow> n'' = n')"
    by blast
qed

theorem face_excluded_iff_witness:
  "(0::nat) < length [floor_surface, wall_surface] \<and>
   nkmap 1 [floor_surface, wall_surface] three_points ! 0 = None \<and>
   nkmap 2 [floor_surface, wall_surface] three_points ! 0 = Some 0 \<and>
   distance_matrix 2 [floor_surface, wall_surface] three_points ! 0 =
     face_distances [floor_surface, wall_surface] three_points 0 \<and>
   length (distance_matrix 2 [floor_surface, wall_surface] three_points) = 2 \<and>
   (\<exists>n'<length [floor_surface, wall_surface].
      nkmap 2 [floor_surface, wall_surface] three_points ! n' = Some 1 \<and>
      distance_matrix 2 [floor_surface, wall_surface] three_points ! 1 =
        face_distances [floor_surface, wall_surface] three_points n')"
proof -
  let ?ss = "[floor_surface, wall_surface]"
  have h: "(0::nat) < length ?ss" by simp
  have a: "nkmap 2 ?ss three_points ! 0 = Some 0" by code_simp
  have len: "length (distance_matrix 2 ?ss three_points) = 2" by code_simp
  note t1 = face_excluded_iff[OF h, of 1 three_points]
  note t2 = face_excluded_iff[OF h, of 2 three_points]
  from t1[THEN conjunct1] have b: "nkmap 1 ?ss three_points ! 0 = None" by simp
  from t2[THEN conjunct2, THEN conjunct1] a
  have c: "distance_matrix 2 ?ss three_points ! 0 = face_distances ?ss three_points 0"
    by blast
  from len have "1 < length (distance_matrix 2 ?ss three_points)" by simp
  with t2[THEN conjunct2, THEN conjunct2, THEN conjunct2]
  have d: "\<exists>n'<length ?ss. nkmap 2 ?ss three_points ! n' = Some 1 \<and>
      distance_matrix 2 ?ss three_points ! 1 = face_distances ?ss three_points n'"
    by blast
  from h a b c len d show ?thesis by blast
qed

subsection \<open>Method \<open>nearest\<close>\<close>

text \<open>
  C5, as stated, fails. The third point lies within the bounding box of the wall at
  distance 999.5; the wall is its nearest face and 999.5 is below the sentinel 999.9,
  but the mask of the wall leaves the point out: the source compares with 999.0.
\<close>

theorem nearest_threshold_counterexample:
  "nkmap (lod (job 2)) [floor_surface, wall_surface] (pcd (job 2)) ! 1 = Some 1 \<and>
   nearest_face (distance_matrix (lod (job 2)) [floor_surface, wall_surface] (pcd (job 2))) =
     Some [0, 1, 1] \<and>
   distance_matrix (lod (job 2)) [floor_surface, wall_surface] (pcd (job 2)) ! 1 ! 2 = 1999 / 2 \<and>
   (1999 / 2 :: real) < 9999 / 10 \<and>
   texture_mask MethodNearest (job 2) [floor_surface, wall_surface] 1 =
     Inr (Array [False, True, False])"
  by code_simp

text \<open>
  C5, amended. For a face \<open>n\<close> with row \<open>k\<close>, the mask of method \<open>nearest\<close> holds
  point \<open>i\<close> exactly when row \<open>k\<close> is the arg-min of the point's column (the least
  value, and the first row with it) and the value in row \<open>k\<close> is below 999.0. Row
  \<open>k\<close> is the distance vector of the face.
\<close>

theorem nearest_mask_iff:
  assumes n: "n < length surfaces"
    and k: "nkmap (lod b) surfaces (pcd b) ! n = Some k"
    and i: "i < length (points (pcd b))"
    and m: "m = distance_matrix (lod b) surfaces (pcd b)"
  shows "\<exists>bs. texture_mask MethodNearest b surfaces n = Inr (Array bs) \<and>
           length bs = length (points (pcd b)) \<and>
           (bs ! i = ((\<forall>k'<length m. m ! k ! i \<le> m ! k' ! i) \<and>
                      (\<forall>k'<k. m ! k ! i < m ! k' ! i) \<and> m ! k ! i < 999)) \<and>
           m ! k = face_distances surfaces (pcd b) n"
proof -
  let ?np = "length (points (pcd b))"
  from nkmap_props(2)[OF n k] m
  have km: "k < length m" and row: "m ! k = face_distances surfaces (pcd b) n" by simp_all
  from nkmap_props(3)[OF n, of "lod b" "pcd b"] m
  have len: "\<forall>r\<in>set m. length r = ?np" by simp
  from km have ne: "m \<noteq> []" by auto
  from km len have lk: "length (m ! k) = ?np" by simp
  from nearest_face_nth[OF ne len i] obtain nf where
    nf: "nearest_face m = Some nf" "length nf = ?np"
    and ch: "\<forall>k. (nf ! i = k) =
              (k < length m \<and> (\<forall>k'<length m. m ! k ! i \<le> m ! k' ! i) \<and>
               (\<forall>k'<k. m ! k ! i < m ! k' ! i))"
    by blast
  let ?bs = "map2 (\<and>) (map (\<lambda>f. f = k) nf) (map (\<lambda>d. d < 999) (m ! k))"
  have tm: "texture_mask MethodNearest b surfaces n = Inr (Array ?bs)"
    using k km nf(1) m by (simp add: texture_mask_def nearest_mask_def Let_def)
  have l: "length ?bs = ?np" using nf(2) lk by simp
  have "?bs ! i = (nf ! i = k \<and> m ! k ! i < 999)"
    using i nf(2) lk by simp
  with ch km have "?bs ! i = ((\<forall>k'<length m. m ! k ! i \<le> m ! k' ! i) \<and>
                      (\<forall>k'<k. m ! k ! i < m ! k' ! i) \<and> m ! k ! i < 999)"
    by blast
  with tm l row show ?thesis by blast
qed

theorem nearest_mask_iff_witness:
  "nkmap (lod (job 2)) [floor_surface, wall_surface] (pcd (job 2)) ! 1 = Some 1 \<and>
   (\<exists>bs. texture_mask MethodNearest (job 2) [floor_surface, wall_surface] 1 = Inr (Array bs) \<and>
      length bs = length (points (pcd (job 2))) \<and>
      (bs ! 2 =
        ((\<forall>k'<length (distance_matrix (lod (job 2)) [floor_surface, wall_surface] (pcd (job 2))).
            distance_matrix (lod (job 2)) [floor_surface, wall_surface] (pcd (job 2)) ! 1 ! 2
              \<le> distance_matrix (lod (job 2)) [floor_surface, wall_surface] (pcd (job 2)) ! k' ! 2) \<and>
         (\<forall>k'<1. distance_matrix (lod (job 2)) [floor_surface, wall_surface] (pcd (job 2)) ! 1 ! 2
              < distance_matrix (lod (job 2)) [floor_surface, wall_surface] (pcd (job 2)) ! k' ! 2) \<and>
         distance_matrix (lod (job 2)) [floor_surface, wall_surface] (pcd (job 2)) ! 1 ! 2 < 999)))"
proof -
  have h1: "(1::nat) < length [floor_surface, wall_surface]" by simp
  have h2: "nkmap (lod (job 2)) [floor_surface, wall_surface] (pcd (job 2)) ! 1 = Some 1"
    by code_simp
  have h3: "2 < length (points (pcd (job 2)))" by code_simp
  from nearest_mask_iff[OF h1 h2 h3 refl] h2 show ?thesis by blast
qed

subsection \<open>Method \<open>smart\<close>\<close>

lemma nearest_face_length:
  assumes "nearest_face m = Some nf" and "\<forall>r\<in>set m. length r = np"
  shows "length nf = np"
proof -
  from assms(1) have ne: "m \<noteq> []" by (auto simp: nearest_face_def split: if_splits)
  with assms(2) have "length (hd m) = np" by (cases m) auto
  with assms(1) ne show ?thesis by (auto simp: nearest_face_def)
qed

text \<open>
  C1, as stated, fails. The nearest face of the second point is the wall (row 1). The
  floor is the nearest face of the first point only, whose depth 1/5 gives the window
  from -1 to 1; the second point has depth 1/2 over the floor, so the mask of the floor
  holds it, and it lies within the floor's bounding box.
\<close>

theorem smart_mask_counterexample:
  "nkmap (lod (job 2)) [floor_surface, wall_surface] (pcd (job 2)) = [Some 0, Some 1] \<and>
   nearest_face (distance_matrix (lod (job 2)) [floor_surface, wall_surface] (pcd (job 2))) =
     Some [0, 1, 1] \<and>
   map zcoord (get_projected_points floor_surface (pcd (job 2))) = [1 / 5, 1 / 2, 1] \<and>
   z_range [1 / 5] = (- 1, 1) \<and>
   texture_mask MethodSmart (job 2) [floor_surface, wall_surface] 0 =
     Inr (Array [True, True, True]) \<and>
   in_bounds floor_surface (get_projected_points floor_surface (pcd (job 2)) ! 1)"
  by code_simp

text \<open>
  C1, amended. Let face \<open>n\<close> have row \<open>k\<close> and be the nearest face of at least one
  point, and let \<open>D\<close> be the depths of the points whose nearest face it is. The mask of
  method \<open>smart\<close> holds point \<open>i\<close> exactly when the depth of the point is between
  \<open>min(-1, max(-10, min D))\<close> and \<open>max(1, max D)\<close>, whichever face is nearest to the
  point.
\<close>

theorem smart_mask_iff:
  assumes n: "n < length surfaces"
    and k: "nkmap (lod b) surfaces (pcd b) ! n = Some k"
    and nf: "nearest_face (distance_matrix (lod b) surfaces (pcd b)) = Some nf"
    and ne: "\<exists>j<length (points (pcd b)). nf ! j = k"
    and i: "i < length (points (pcd b))"
    and z: "z = map zcoord (get_projected_points (surfaces ! n) (pcd b))"
    and D: "D = {z ! j | j. j < length (points (pcd b)) \<and> nf ! j = k}"
  shows "\<exists>bs. texture_mask MethodSmart b surfaces n = Inr (Array bs) \<and>
           length bs = length (points (pcd b)) \<and>
           (bs ! i = (min (- 1) (max (- 10) (Min D)) \<le> z ! i \<and> z ! i \<le> max 1 (Max D)))"
proof -
  let ?np = "length (points (pcd b))"
  let ?P = "get_projected_points (surfaces ! n) (pcd b)"
  let ?msk = "map (\<lambda>f. f = k) nf"
  from nearest_face_length[OF nf nkmap_props(3)[OF n]] have lnf: "length nf = ?np" .
  have lz: "length z = ?np" using z by simp
  have sel: "map zcoord (select ?msk ?P) = select ?msk z"
    using z by (simp add: select_map)
  have "set (select ?msk z) = {z ! j | j. j < length z \<and> ?msk ! j}"
    by (rule set_select) (simp add: lnf lz)
  also have "\<dots> = D"
    using D lz lnf by auto
  finally have setD: "set (select ?msk z) = D" .
  from ne obtain j where "j < ?np" "nf ! j = k" by blast
  with D have "z ! j \<in> D" by blast
  with setD have zne: "select ?msk z \<noteq> []" by auto
  with sel have fne: "select ?msk ?P \<noteq> []" by auto
  have r: "z_range (map zcoord (select ?msk ?P)) =
           (min (- 1) (max (- 10) (Min D)), max 1 (Max D))"
    using zne setD by (simp add: sel z_range_def amin_eq_Min amax_eq_Max)
  let ?bs = "map (\<lambda>p. zcoord p \<ge> min (- 1) (max (- 10) (Min D)) \<and>
                       zcoord p \<le> max 1 (Max D)) ?P"
  have "smart_mask (nkmap (lod b) surfaces (pcd b)) (Some nf) (surfaces ! n) (pcd b) n = Array ?bs"
    using k fne r by (simp add: smart_mask_def Let_def)
  then have tm: "texture_mask MethodSmart b surfaces n = Inr (Array ?bs)"
    using nf by (simp add: texture_mask_def Let_def)
  have "?bs ! i = (min (- 1) (max (- 10) (Min D)) \<le> z ! i \<and> z ! i \<le> max 1 (Max D))"
    using i z by simp
  with tm show ?thesis by (intro exI[of _ ?bs]) simp
qed

theorem smart_mask_iff_witness:
  "nkmap (lod (job 2)) [floor_surface, wall_surface] (pcd (job 2)) ! 0 = Some 0 \<and>
   nearest_face (distance_matrix (lod (job 2)) [floor_surface, wall_surface] (pcd (job 2))) =
     Some [0, 1, 1] \<and>
   (\<exists>bs. texture_mask MethodSmart (job 2) [floor_surface, wall_surface] 0 = Inr (Array bs) \<and>
      length bs = length (points (pcd (job 2))) \<and>
      (bs ! 1 =
         (min (- 1) (max (- 10)
            (Min {map zcoord (get_projected_points ([floor_surface, wall_surface] ! 0)
                   (pcd (job 2))) ! j | j.
                  j < length (points (pcd (job 2))) \<and> [0, 1, 1] ! j = (0::nat)}))
          \<le> map zcoord (get_projected_points ([floor_surface, wall_surface] ! 0)
                 (pcd (job 2))) ! 1 \<and>
          map zcoord (get_projected_points ([floor_surface, wall_surface] ! 0) (pcd (job 2))) ! 1
          \<le> max 1
            (Max {map zcoord (get_projected_points ([floor_surface, wall_surface] ! 0)
                   (pcd (job 2))) ! j | j.
                  j < length (points (pcd (job 2))) \<and> [0, 1, 1] ! j = (0::nat)}))))"
proof -
  have h1: "(0::nat) < length [floor_surface, wall_surface]" by simp
  have h2: "nkmap (lod (job 2)) [floor_surface, wall_surface] (pcd (job 2)) ! 0 = Some 0"
    by code_simp
  have h3: "nearest_face (distance_matrix (lod (job 2)) [floor_surface, wall_surface]
              (pcd (job 2))) = Some [0, 1, 1]"
    by code_simp
  have h5: "1 < length (points (pcd (job 2)))" by code_simp
  have "0 < length (points (pcd (job 2)))" by code_simp
  then have h4: "\<exists>j<length (points (pcd (job 2))). [0, 1, 1] ! j = (0::nat)"
    by (intro exI[of _ 0]) simp
  from smart_mask_iff[OF h1 h2 h3 h4 h5 refl refl] h2 h3 show ?thesis by blast
qed

subsection \<open>Texture creation\<close>

lemma farther_than_sqrt: "farther_than p q t = (sqrt (sqdist p q) > t)"
proof (cases "t < 0")
  case True
  have "0 \<le> sqrt (sqdist p q)" by (simp add: sqdist_def)
  with True have "t < sqrt (sqdist p q)" by linarith
  with True show ?thesis by (simp add: farther_than_def)
next
  case False
  then have t: "0 \<le> t" by simp
  have "(sqrt (sqdist p q) > t) = (sqrt (sqdist p q) > sqrt (t\<^sup>2))"
    using t by simp
  also have "\<dots> = (sqdist p q > t\<^sup>2)" by (simp only: real_sqrt_less_iff)
  finally show ?thesis using False by (simp add: farther_than_def)
qed

lemma select_Nil [simp]: "select [] xs = []" "select bs [] = []"
  by (simp_all add: select_def)

lemma select_Cons [simp]:
  "select (b # bs) (x # xs) = (if b then x # select bs xs else select bs xs)"
  by (simp add: select_def)

lemma select_length_eq:
  "length xs = length ys \<Longrightarrow> length (select bs xs) = length (select bs ys)"
proof (induction bs arbitrary: xs ys)
  case Nil
  then show ?case by simp
next
  case (Cons b bs)
  then show ?case by (cases xs; cases ys) auto
qed

lemma select_nth_pair:
  assumes "length xs = length ys" and "i < length (select bs xs)"
  shows "\<exists>j<length xs. j < length bs \<and> bs ! j \<and>
           select bs xs ! i = xs ! j \<and> select bs ys ! i = ys ! j"
  using assms
proof (induction bs arbitrary: xs ys i)
  case Nil
  then show ?case by simp
next
  case (Cons b bs)
  show ?case
  proof (cases xs)
    case Nil
    with Cons.prems show ?thesis by simp
  next
    case xs: (Cons x xs')
    with Cons.prems(1) obtain y ys' where ys: "ys = y # ys'" and l: "length xs' = length ys'"
      by (cases ys) auto
    show ?thesis
    proof (cases "b \<and> i = 0")
      case True
      then show ?thesis unfolding xs ys by (intro exI[of _ 0]) simp
    next
      case False
      define i' where "i' = (if b then i - 1 else i)"
      from False Cons.prems(2) have i': "i' < length (select bs xs')"
        unfolding xs i'_def by (auto split: if_splits)
      from Cons.IH[OF l i'] obtain j where j: "j < length xs'" "j < length bs" "bs ! j"
        "select bs xs' ! i' = xs' ! j" "select bs ys' ! i' = ys' ! j"
        by blast
      have "select (b # bs) xs ! i = select bs xs' ! i'"
        using False unfolding xs i'_def by (cases i) auto
      moreover have "select (b # bs) ys ! i = select bs ys' ! i'"
        using False unfolding ys i'_def by (cases i) auto
      ultimately show ?thesis
        using j unfolding xs ys by (intro exI[of _ "Suc j"]) simp
    qed
  qed
qed

lemma select_cong:
  assumes "length xs = length ys"
    and "\<forall>j<length xs. j < length bs \<longrightarrow> bs ! j \<longrightarrow> xs ! j = ys ! j"
  shows "select bs xs = select bs ys"
  using assms
proof (induction bs arbitrary: xs ys)
  case Nil
  then show ?case by simp
next
  case (Cons b bs)
  show ?case
  proof (cases xs)
    case Nil
    with Cons.prems show ?thesis by simp
  next
    case xs: (Cons x xs')
    with Cons.prems(1) obtain y ys' where ys: "ys = y # ys'" and l: "length xs' = length ys'"
      by (cases ys) auto
    have "\<forall>j<length xs'. j < length bs \<longrightarrow> bs ! j \<longrightarrow> xs' ! j = ys' ! j"
    proof (intro allI impI)
      fix j assume "j < length xs'" "j < length bs" "bs ! j"
      with Cons.prems(2)[rule_format, of "Suc j"] show "xs' ! j = ys' ! j"
        unfolding xs ys by simp
    qed
    from Cons.IH[OF l this] have r: "select bs xs' = select bs ys'" .
    from Cons.prems(2)[rule_format, of 0] have "b \<longrightarrow> x = y" unfolding xs ys by simp
    with r show ?thesis unfolding xs ys by simp
  qed
qed

lemma mask_and_props:
  "length (mask_and msk ys) \<le> length ys \<and>
   (\<forall>j<length (mask_and msk ys). mask_and msk ys ! j \<longrightarrow> ys ! j)"
  by (cases msk) auto

lemma mask_and_idem:
  "mask_and (Array (mask_and msk ys)) ys = mask_and msk ys"
proof -
  let ?s = "mask_and msk ys"
  from mask_and_props[of msk ys]
  have l: "length ?s \<le> length ys" and p: "\<forall>j<length ?s. ?s ! j \<longrightarrow> ys ! j" by simp_all
  have "map2 (\<and>) ?s ys = ?s"
  proof (rule nth_equalityI)
    show "length (map2 (\<and>) ?s ys) = length ?s" using l by simp
  next
    fix i assume "i < length (map2 (\<and>) ?s ys)"
    then have "i < length ?s" "i < length ys" by simp_all
    with p show "map2 (\<and>) ?s ys ! i = ?s ! i" by auto
  qed
  then show ?thesis by simp
qed

lemma list_ex_select_ne:
  assumes "list_ex (\<lambda>x. x) bs" and "length bs \<le> length xs"
  shows "select bs xs \<noteq> []"
  using assms
proof (induction bs arbitrary: xs)
  case Nil
  then show ?case by simp
next
  case (Cons b bs)
  then show ?case by (cases xs) auto
qed

lemma argmin_less: "xs \<noteq> [] \<Longrightarrow> argmin xs < length xs"
  using argmin_props by blast

lemma rasterize_pixels:
  assumes "xy \<noteq> []" and "row \<in> set (rasterize xy cols bnd g)" and "px \<in> set row"
  shows "px = (128, 128, 128) \<or> (\<exists>i<length xy. px = pixel_of (cols ! i))"
proof -
  obtain minx miny maxx maxy where bnd: "bnd = (minx, miny, maxx, maxy)"
    by (cases bnd) auto
  have n: "nearest_sample xy q < length xy" for q
    using argmin_less[of "map (\<lambda>p. sqdist p q) xy"] assms(1)
    by (simp add: nearest_sample_def)
  let ?f = "\<lambda>y x. let i = nearest_sample xy (x, y)
                  in if farther_than (xy ! i) (x, y) (g * 2) then (128, 128, 128)
                     else pixel_of (cols ! i)"
  from assms(2) obtain y where row: "row = map (?f y)
      (linspace minx maxx (nat (trunc ((maxx - minx) / g) + 1)))"
    unfolding bnd rasterize_def by (auto simp: Let_def)
  from assms(3) obtain x where px: "px = ?f y x"
    unfolding row by auto
  show ?thesis
  proof (cases "farther_than (xy ! nearest_sample xy (x, y)) (x, y) (g * 2)")
    case True
    with px show ?thesis by (simp add: Let_def)
  next
    case False
    with px have "px = pixel_of (cols ! nearest_sample xy (x, y))" by (simp add: Let_def)
    with n[of "(x, y)"] show ?thesis by blast
  qed
qed

lemma create_texture_image_empty:
  assumes "dirname b = Some d"
    and "\<not> list_ex (\<lambda>x. x) (mask_and msk (map (in_bounds s) (get_projected_points s (pcd b))))"
  shows "create_texture_image vds b s fs msk imagesize prefix wp =
         Inr \<lparr> image_name = ''no_texture.png'',
               files = (if fs (d, ''no_texture.png'') \<noteq> None then fs
                        else fs((d, ''no_texture.png'') \<mapsto> Png gray_image)) \<rparr>"
  using assms by (simp add: create_texture_image_def Let_def)

lemma create_texture_image_nonempty:
  assumes "dirname b = Some d"
    and "sel = mask_and msk (map (in_bounds s) (get_projected_points s (pcd b)))"
    and "list_ex (\<lambda>x. x) sel"
    and "g = grid_size s (case imagesize of None \<Rightarrow> DEFAULT_IMAGESIZE | Some i \<Rightarrow> i) (gridsize b)"
    and "pre = (case prefix of None \<Rightarrow> bldid b | Some p \<Rightarrow> if p = [] then bldid b else p)"
    and "filtered = \<lparr> points = select sel (get_projected_points s (pcd b)),
                      colors = select sel (colors (pcd b)) \<rparr>"
  shows "create_texture_image vds b s fs msk imagesize prefix wp =
         Inr \<lparr> image_name = pre @ ''_'' @ fmt03 (face_number s) @ ''.png'',
               files = (if wp
                        then fs((d, pre @ ''_'' @ fmt03 (face_number s) @ ''.ply'') \<mapsto>
                               Ply (if g > gridsize b * 2 then vds g filtered else filtered))
                        else fs)
                  ((d, pre @ ''_'' @ fmt03 (face_number s) @ ''.png'') \<mapsto>
                     Png (rasterize (map (\<lambda>p. (xcoord p, ycoord p)) (points filtered))
                            (colors filtered) (boundary s) g)) \<rparr>"
  using assms by (simp add: create_texture_image_def Let_def)

lemma create_texture_image_no_dirname:
  "dirname b = None \<Longrightarrow>
   create_texture_image vds b s fs msk imagesize prefix wp = Inl AttributeError"
  by (simp add: create_texture_image_def Let_def)

text \<open>
  C7, as stated, fails. A job made without an output directory, for which
  \<open>set_dirname\<close> has not been called, has no attribute \<open>dirname\<close>: for a face
  whose mask selects no point, \<open>create_texture_image\<close> raises \<open>AttributeError\<close>
  when it builds the name of the placeholder file.
\<close>

theorem empty_mask_without_dirname_counterexample:
  "dirname ((job 2)\<lparr>dirname := None\<rparr>) = None \<and>
   \<not> list_ex (\<lambda>x. x)
       (mask_and (Scalar False)
          (map (in_bounds wall_surface)
             (get_projected_points wall_surface (pcd ((job 2)\<lparr>dirname := None\<rparr>))))) \<and>
   create_texture_image voxel_down_sample ((job 2)\<lparr>dirname := None\<rparr>) wall_surface
     Map.empty (Scalar False) (Some 512) (Some ''t'') False = Inl AttributeError"
proof -
  have 1: "dirname ((job 2)\<lparr>dirname := None\<rparr>) = None" by simp
  have 2: "\<not> list_ex (\<lambda>x. x)
       (mask_and (Scalar False)
          (map (in_bounds wall_surface)
             (get_projected_points wall_surface (pcd ((job 2)\<lparr>dirname := None\<rparr>)))))"
    by code_simp
  from 1 2 create_texture_image_no_dirname[OF 1] show ?thesis by blast
qed

text \<open>
  C7, amended. In a job whose output directory has been set, when the mask, cut down
  to the bounding box of the face, selects no point, \<open>create_texture_image\<close> returns
  without an exception. It returns the one name \<open>no_texture.png\<close>; the gray 4 x 4
  image is written under that name only when no file of the name exists, and a further
  call on the files so left returns the same name and leaves the files as they are.
\<close>

theorem empty_mask_gives_placeholder:
  assumes d: "dirname b = Some d"
    and e: "\<not> list_ex (\<lambda>x. x)
              (mask_and msk (map (in_bounds s) (get_projected_points s (pcd b))))"
  shows "\<exists>t. create_texture_image vds b s fs msk imagesize prefix wp = Inr t \<and>
           image_name t = ''no_texture.png'' \<and>
           files t = (if fs (d, ''no_texture.png'') \<noteq> None then fs
                      else fs((d, ''no_texture.png'') \<mapsto> Png gray_image)) \<and>
           files t (d, ''no_texture.png'') \<noteq> None \<and>
           create_texture_image vds b s (files t) msk imagesize prefix wp = Inr t"
proof -
  let ?fs' = "if fs (d, ''no_texture.png'') \<noteq> None then fs
              else fs((d, ''no_texture.png'') \<mapsto> Png gray_image)"
  let ?t = "\<lparr> image_name = ''no_texture.png'', files = ?fs' \<rparr>"
  have 1: "create_texture_image vds b s fs msk imagesize prefix wp = Inr ?t"
    by (rule create_texture_image_empty[OF d e])
  have 2: "?fs' (d, ''no_texture.png'') \<noteq> None" by simp
  have 3: "create_texture_image vds b s ?fs' msk imagesize prefix wp = Inr ?t"
  proof (cases "fs (d, ''no_texture.png'') = None")
    case True
    from create_texture_image_empty[OF d e,
        of vds "fs((d, ''no_texture.png'') \<mapsto> Png gray_image)" imagesize prefix wp] True
    show ?thesis by simp
  next
    case False
    from create_texture_image_empty[OF d e, of vds fs imagesize prefix wp] False
    show ?thesis by simp
  qed
  from 1 2 3 show ?thesis by (intro exI[of _ ?t]) simp
qed

theorem empty_mask_gives_placeholder_witness:
  "dirname (job 2) = Some ''out'' \<and>
   \<not> list_ex (\<lambda>x. x)
       (mask_and (Scalar False)
          (map (in_bounds wall_surface) (get_projected_points wall_surface (pcd (job 2))))) \<and>
   (\<exists>t. create_texture_image voxel_down_sample (job 2) wall_surface Map.empty (Scalar False)
           (Some 512) (Some ''t'') False = Inr t \<and>
        image_name t = ''no_texture.png'' \<and>
        files t (''out'', ''no_texture.png'') \<noteq> None \<and>
        create_texture_image voxel_down_sample (job 2) wall_surface (files t) (Scalar False)
           (Some 512) (Some ''t'') False = Inr t)"
proof -
  have h1: "dirname (job 2) = Some ''out''" by (simp add: job_def)
  have h2: "\<not> list_ex (\<lambda>x. x)
       (mask_and (Scalar False)
          (map (in_bounds wall_surface) (get_projected_points wall_surface (pcd (job 2)))))"
    by code_simp
  from empty_mask_gives_placeholder[OF h1 h2, of voxel_down_sample Map.empty "Some 512"
      "Some ''t''" False] h1 h2
  show ?thesis by blast
qed

text \<open>
  C10. Let the mask, whatever the method that made it, select at least one point within
  the bounding box of the face, in a well-formed cloud and job. Then the texture is the
  raster of the points that the mask selects within the bounding box: the call gives the
  same result when the mask is replaced by its part within the box; every pixel is gray
  or the colour of a point within the box; and changing the colours of the points
  outside the box changes nothing in the result.
\<close>

theorem out_of_bounds_points_do_not_colour:
  assumes d: "dirname b = Some d"
    and len: "length (colors (pcd b)) = length (points (pcd b))"
    and size: "imagesize \<noteq> Some 1"
    and sel: "sel = mask_and msk (map (in_bounds s) (get_projected_points s (pcd b)))"
    and ne: "list_ex (\<lambda>x. x) sel"
  shows "\<exists>t img. create_texture_image vds b s fs msk imagesize prefix wp = Inr t \<and>
           files t (d, image_name t) = Some (Png img) \<and>
           create_texture_image vds b s fs (Array sel) imagesize prefix wp = Inr t \<and>
           (\<forall>row\<in>set img. \<forall>px\<in>set row.
              px = (128, 128, 128) \<or>
              (\<exists>i<length (points (pcd b)).
                 in_bounds s (get_projected_points s (pcd b) ! i) \<and>
                 px = pixel_of (colors (pcd b) ! i))) \<and>
           (\<forall>cs. length cs = length (points (pcd b)) \<and>
              (\<forall>i<length (points (pcd b)).
                 in_bounds s (get_projected_points s (pcd b) ! i) \<longrightarrow>
                 cs ! i = colors (pcd b) ! i) \<longrightarrow>
              create_texture_image vds (b\<lparr>pcd := (pcd b)\<lparr>colors := cs\<rparr>\<rparr>) s fs msk
                imagesize prefix wp = Inr t)"
proof -
  let ?P = "get_projected_points s (pcd b)"
  let ?C = "colors (pcd b)"
  let ?inb = "map (in_bounds s) ?P"
  let ?g = "grid_size s (case imagesize of None \<Rightarrow> DEFAULT_IMAGESIZE | Some i \<Rightarrow> i) (gridsize b)"
  let ?pre = "case prefix of None \<Rightarrow> bldid b | Some p \<Rightarrow> if p = [] then bldid b else p"
  let ?filtered = "\<lparr> points = select sel ?P, colors = select sel ?C \<rparr>"
  let ?png = "?pre @ ''_'' @ fmt03 (face_number s) @ ''.png''"
  let ?xy = "map (\<lambda>p. (xcoord p, ycoord p)) (select sel ?P)"
  let ?img = "rasterize ?xy (select sel ?C) (boundary s) ?g"
  let ?fs1 = "if wp
              then fs((d, ?pre @ ''_'' @ fmt03 (face_number s) @ ''.ply'') \<mapsto>
                     Ply (if ?g > gridsize b * 2 then vds ?g ?filtered else ?filtered))
              else fs"
  let ?t = "\<lparr> image_name = ?png, files = ?fs1((d, ?png) \<mapsto> Png ?img) \<rparr>"
  have lP: "length ?P = length ?C" using len by simp
  from mask_and_props[of msk ?inb] sel
  have lsel: "length sel \<le> length ?P"
    and selin: "\<forall>j<length sel. sel ! j \<longrightarrow> in_bounds s (?P ! j)"
    by auto
  have run: "create_texture_image vds b s fs msk imagesize prefix wp = Inr ?t"
    using create_texture_image_nonempty[OF d sel ne refl refl refl] by simp
  have stored: "files ?t (d, image_name ?t) = Some (Png ?img)" by simp
  have sel': "sel = mask_and (Array sel) ?inb"
    using mask_and_idem[of msk ?inb] sel by simp
  have run': "create_texture_image vds b s fs (Array sel) imagesize prefix wp = Inr ?t"
    using create_texture_image_nonempty[OF d sel' ne refl refl refl] by simp
  have xy_ne: "?xy \<noteq> []"
    using list_ex_select_ne[OF ne lsel] by simp
  have pix: "\<forall>row\<in>set ?img. \<forall>px\<in>set row.
              px = (128, 128, 128) \<or>
              (\<exists>i<length (points (pcd b)).
                 in_bounds s (?P ! i) \<and> px = pixel_of (?C ! i))"
  proof (intro ballI)
    fix row px assume "row \<in> set ?img" and "px \<in> set row"
    from rasterize_pixels[OF xy_ne this]
    consider "px = (128, 128, 128)"
      | i where "i < length ?xy" "px = pixel_of (select sel ?C ! i)"
      by blast
    then show "px = (128, 128, 128) \<or>
              (\<exists>i<length (points (pcd b)).
                 in_bounds s (?P ! i) \<and> px = pixel_of (?C ! i))"
    proof cases
      case 1
      then show ?thesis by simp
    next
      case 2
      from 2(1) have "i < length (select sel ?P)" by simp
      from select_nth_pair[OF lP this] obtain j where
        j: "j < length ?P" "j < length sel" "sel ! j" "select sel ?C ! i = ?C ! j"
        by blast
      from selin j(2,3) have "in_bounds s (?P ! j)" by blast
      with j(1,4) 2(2) show ?thesis by auto
    qed
  qed
  have col: "\<forall>cs. length cs = length (points (pcd b)) \<and>
              (\<forall>i<length (points (pcd b)).
                 in_bounds s (?P ! i) \<longrightarrow> cs ! i = ?C ! i) \<longrightarrow>
              create_texture_image vds (b\<lparr>pcd := (pcd b)\<lparr>colors := cs\<rparr>\<rparr>) s fs msk
                imagesize prefix wp = Inr ?t"
  proof (intro allI impI)
    fix cs
    assume a: "length cs = length (points (pcd b)) \<and>
              (\<forall>i<length (points (pcd b)). in_bounds s (?P ! i) \<longrightarrow> cs ! i = ?C ! i)"
    let ?b' = "b\<lparr>pcd := (pcd b)\<lparr>colors := cs\<rparr>\<rparr>"
    have P': "get_projected_points s (pcd ?b') = ?P"
      by (simp add: get_projected_points_def)
    have d': "dirname ?b' = Some d" using d by simp
    have sel2: "sel = mask_and msk (map (in_bounds s) (get_projected_points s (pcd ?b')))"
      using sel P' by simp
    have "\<forall>j<length cs. j < length sel \<longrightarrow> sel ! j \<longrightarrow> cs ! j = ?C ! j"
      using a selin by auto
    with a len have cs: "select sel cs = select sel ?C"
      by (intro select_cong) simp_all
    have P'': "get_projected_points s ((pcd b)\<lparr>colors := cs\<rparr>) = ?P"
      by (simp add: get_projected_points_def)
    have pre': "(case prefix of None \<Rightarrow> bldid ?b'
                 | Some p \<Rightarrow> if p = [] then bldid ?b' else p) = ?pre"
      by (cases prefix) simp_all
    have "create_texture_image vds ?b' s fs msk imagesize prefix wp =
          Inr \<lparr> image_name = ?png,
                files = (if wp
                   then fs((d, ?pre @ ''_'' @ fmt03 (face_number s) @ ''.ply'') \<mapsto>
                     Ply (if ?g > gridsize b * 2
                          then vds ?g \<lparr> points = select sel ?P, colors = select sel cs \<rparr>
                          else \<lparr> points = select sel ?P, colors = select sel cs \<rparr>))
                   else fs)
                  ((d, ?png) \<mapsto> Png (rasterize ?xy (select sel cs) (boundary s) ?g)) \<rparr>"
      using create_texture_image_nonempty[OF d' sel2 ne refl refl refl, where vds=vds and fs=fs and wp=wp and imagesize=imagesize and prefix=prefix]
      by (simp add: P'' pre')
    then show "create_texture_image vds ?b' s fs msk imagesize prefix wp = Inr ?t"
      by (simp only: cs)
  qed
  from run stored run' pix col show ?thesis
    by (intro exI[of _ ?t] exI[of _ ?img]) blast
qed

theorem out_of_bounds_points_do_not_colour_witness:
  "dirname (job 2) = Some ''out'' \<and>
   list_ex (\<lambda>x. x)
     (mask_and (Scalar True)
        (map (in_bounds floor_surface) (get_projected_points floor_surface (pcd (job 2))))) \<and>
   \<not> in_bounds floor_surface (get_projected_points floor_surface (pcd (job 2)) ! 2) \<and>
   (\<exists>t img. create_texture_image voxel_down_sample (job 2) floor_surface Map.empty (Scalar True)
        (Some 3) (Some ''t'') False = Inr t \<and>
      files t (''out'', image_name t) = Some (Png img) \<and>
      create_texture_image voxel_down_sample (job 2) floor_surface Map.empty
        (Array (mask_and (Scalar True)
           (map (in_bounds floor_surface) (get_projected_points floor_surface (pcd (job 2))))))
        (Some 3) (Some ''t'') False = Inr t \<and>
      (\<forall>row\<in>set img. \<forall>px\<in>set row.
         px = (128, 128, 128) \<or>
         (\<exists>i<length (points (pcd (job 2))).
            in_bounds floor_surface (get_projected_points floor_surface (pcd (job 2)) ! i) \<and>
            px = pixel_of (colors (pcd (job 2)) ! i))))"
proof -
  have h1: "dirname (job 2) = Some ''out''" by (simp add: job_def)
  have h2: "length (colors (pcd (job 2))) = length (points (pcd (job 2)))" by code_simp
  have h3: "Some (3::int) \<noteq> Some 1" by simp
  have h5: "list_ex (\<lambda>x. x)
     (mask_and (Scalar True)
        (map (in_bounds floor_surface) (get_projected_points floor_surface (pcd (job 2)))))"
    by code_simp
  have h6: "\<not> in_bounds floor_surface (get_projected_points floor_surface (pcd (job 2)) ! 2)"
    by code_simp
  from out_of_bounds_points_do_not_colour[OF h1 h2 h3 refl h5,
      of voxel_down_sample Map.empty "Some ''t''" False]
  obtain t img where
    "create_texture_image voxel_down_sample (job 2) floor_surface Map.empty (Scalar True)
        (Some 3) (Some ''t'') False = Inr t"
    "files t (''out'', image_name t) = Some (Png img)"
    "create_texture_image voxel_down_sample (job 2) floor_surface Map.empty
        (Array (mask_and (Scalar True)
           (map (in_bounds floor_surface) (get_projected_points floor_surface (pcd (job 2))))))
        (Some 3) (Some ''t'') False = Inr t"
    "\<forall>row\<in>set img. \<forall>px\<in>set row.
         px = (128, 128, 128) \<or>
         (\<exists>i<length (points (pcd (job 2))).
            in_bounds floor_surface (get_projected_points floor_surface (pcd (job 2)) ! i) \<and>
            px = pixel_of (colors (pcd (job 2)) ! i))"
    by blast
  with h1 h5 h6 show ?thesis by blast
qed

text \<open>
  C4, as stated, fails. The floor with image size 3 has grid size 1, more than twice
  the grid size 1/100 of the job. The two points fall into one voxel, which the
  downsampling replaces by their mean, of colour 3/8. The image that is written shows
  the colours 1/4 and 1/2 of the two points themselves (64 and 128), not the 96 that a
  raster of the downsampled point gives.
\<close>

theorem raster_downsampled_counterexample:
  "gridsize close_job * 2 < grid_size floor_surface 3 (gridsize close_job) \<and>
   grid_size floor_surface 3 (gridsize close_job) = 1 \<and>
   (case create_texture_image voxel_down_sample close_job floor_surface Map.empty (Scalar True)
           (Some 3) (Some ''t'') False of
      Inl e \<Rightarrow> False
    | Inr t \<Rightarrow>
        image_name t = ''t_000.png'' \<and>
        files t (''out'', ''t_000.png'') =
          Some (Png [[(64, 0, 0), (128, 0, 0), (128, 0, 0)],
                     [(64, 0, 0), (128, 0, 0), (128, 128, 128)],
                     [(64, 0, 0), (128, 128, 128), (128, 128, 128)]])) \<and>
   voxel_down_sample 1
     \<lparr> points = get_projected_points floor_surface (pcd close_job),
       colors = colors (pcd close_job) \<rparr> =
     \<lparr> points = [(1 / 500, 0, 0)], colors = [(3 / 8, 0, 0)] \<rparr> \<and>
   rasterize [(1 / 500, 0)] [(3 / 8, 0, 0)] (boundary floor_surface) 1 =
     [[(96, 0, 0), (96, 0, 0), (96, 0, 0)],
      [(96, 0, 0), (96, 0, 0), (128, 128, 128)],
      [(128, 128, 128), (128, 128, 128), (128, 128, 128)]]"
  by code_simp

lemma png_ply_names_differ:
  "pre @ ''_'' @ n @ ''.ply'' \<noteq> pre @ ''_'' @ n @ ''.png''"
  by simp

text \<open>
  C4, amended. For a mask that selects a point within the bounding box, the raster is
  made from the masked points as they are, whatever the grid size: the image does not
  depend on the downsampling function at all, and without \<open>write_pointcloud\<close> nor does
  anything else of the result. When the grid size exceeds twice the grid size of the
  job, the downsampled cloud is what the PLY file holds, when that file is asked for.
\<close>

theorem raster_uses_masked_points:
  assumes d: "dirname b = Some d"
    and size: "imagesize \<noteq> Some 1"
    and sel: "sel = mask_and msk (map (in_bounds s) (get_projected_points s (pcd b)))"
    and ne: "list_ex (\<lambda>x. x) sel"
    and g: "g = grid_size s (case imagesize of None \<Rightarrow> DEFAULT_IMAGESIZE | Some i \<Rightarrow> i)
                  (gridsize b)"
    and pre: "pre = (case prefix of None \<Rightarrow> bldid b
                     | Some p \<Rightarrow> if p = [] then bldid b else p)"
    and filtered: "filtered = \<lparr> points = select sel (get_projected_points s (pcd b)),
                                colors = select sel (colors (pcd b)) \<rparr>"
  shows "\<exists>t. create_texture_image vds b s fs msk imagesize prefix wp = Inr t \<and>
           image_name t = pre @ ''_'' @ fmt03 (face_number s) @ ''.png'' \<and>
           files t (d, image_name t) =
             Some (Png (rasterize (map (\<lambda>p. (xcoord p, ycoord p)) (points filtered))
                          (colors filtered) (boundary s) g)) \<and>
           (wp \<longrightarrow> files t (d, pre @ ''_'' @ fmt03 (face_number s) @ ''.ply'') =
              Some (Ply (if g > gridsize b * 2 then vds g filtered else filtered))) \<and>
           (\<forall>vds'. \<exists>t'. create_texture_image vds' b s fs msk imagesize prefix wp = Inr t' \<and>
              image_name t' = image_name t \<and>
              files t' (d, image_name t') = files t (d, image_name t) \<and>
              (\<not> wp \<longrightarrow> t' = t))"
proof -
  let ?png = "pre @ ''_'' @ fmt03 (face_number s) @ ''.png''"
  let ?ply = "pre @ ''_'' @ fmt03 (face_number s) @ ''.ply''"
  let ?img = "rasterize (map (\<lambda>p. (xcoord p, ycoord p)) (points filtered))
                (colors filtered) (boundary s) g"
  let ?fs = "\<lambda>v. if wp then fs((d, ?ply) \<mapsto>
                 Ply (if g > gridsize b * 2 then v g filtered else filtered)) else fs"
  let ?t = "\<lambda>v. \<lparr> image_name = ?png, files = (?fs v)((d, ?png) \<mapsto> Png ?img) \<rparr>"
  have run: "create_texture_image v b s fs msk imagesize prefix wp = Inr (?t v)" for v
    by (rule create_texture_image_nonempty[OF d sel ne g pre filtered])
  have ne_names: "?ply \<noteq> ?png" by (rule png_ply_names_differ)
  have a: "image_name (?t vds) = ?png" by simp
  have b: "files (?t vds) (d, image_name (?t vds)) = Some (Png ?img)" by simp
  have c: "wp \<longrightarrow> files (?t vds) (d, ?ply) =
              Some (Ply (if g > gridsize b * 2 then vds g filtered else filtered))"
    using ne_names by simp
  have e: "\<forall>vds'. \<exists>t'. create_texture_image vds' b s fs msk imagesize prefix wp = Inr t' \<and>
              image_name t' = image_name (?t vds) \<and>
              files t' (d, image_name t') = files (?t vds) (d, image_name (?t vds)) \<and>
              (\<not> wp \<longrightarrow> t' = ?t vds)"
  proof
    fix vds'
    show "\<exists>t'. create_texture_image vds' b s fs msk imagesize prefix wp = Inr t' \<and>
              image_name t' = image_name (?t vds) \<and>
              files t' (d, image_name t') = files (?t vds) (d, image_name (?t vds)) \<and>
              (\<not> wp \<longrightarrow> t' = ?t vds)"
      using run[of vds'] by (intro exI[of _ "?t vds'"]) simp
  qed
  from run[of vds] a b c e show ?thesis
    by (intro exI[of _ "?t vds"]) (simp only: simp_thms)
qed

theorem raster_uses_masked_points_witness:
  "dirname close_job = Some ''out'' \<and>
   list_ex (\<lambda>x. x)
     (mask_and (Scalar True)
        (map (in_bounds floor_surface) (get_projected_points floor_surface (pcd close_job)))) \<and>
   (\<exists>t. create_texture_image voxel_down_sample close_job floor_surface Map.empty (Scalar True)
        (Some 3) (Some ''t'') True = Inr t \<and>
      image_name t = ''t_000.png'' \<and>
      files t (''out'', ''t_000.png'') =
        Some (Png (rasterize [(0, 0), (1 / 250, 0)] [(1 / 4, 0, 0), (1 / 2, 0, 0)]
                     (0, 0, 2, 2) 1)) \<and>
      files t (''out'', ''t_000.ply'') =
        Some (Ply \<lparr> points = [(1 / 500, 0, 0)], colors = [(3 / 8, 0, 0)] \<rparr>))"
proof -
  let ?sel = "mask_and (Scalar True)
        (map (in_bounds floor_surface) (get_projected_points floor_surface (pcd close_job)))"
  let ?g = "grid_size floor_surface (case Some 3 of None \<Rightarrow> DEFAULT_IMAGESIZE | Some i \<Rightarrow> i)
              (gridsize close_job)"
  let ?pre = "case Some ''t'' of None \<Rightarrow> bldid close_job
              | Some p \<Rightarrow> if p = [] then bldid close_job else p"
  let ?filtered = "\<lparr> points = select ?sel (get_projected_points floor_surface (pcd close_job)),
                     colors = select ?sel (colors (pcd close_job)) \<rparr>"
  have h1: "dirname close_job = Some ''out''" by (simp add: close_job_def)
  have h2: "Some (3::int) \<noteq> Some 1" by simp
  have h4: "list_ex (\<lambda>x. x) ?sel" by code_simp
  have n1: "?pre @ ''_'' @ fmt03 (face_number floor_surface) @ ''.png'' = ''t_000.png''"
    by code_simp
  have n2: "?pre @ ''_'' @ fmt03 (face_number floor_surface) @ ''.ply'' = ''t_000.ply''"
    by code_simp
  have c1: "(if ?g > gridsize close_job * 2 then voxel_down_sample ?g ?filtered else ?filtered) =
        \<lparr> points = [(1 / 500, 0, 0)], colors = [(3 / 8, 0, 0)] \<rparr>"
    by code_simp
  have c2: "rasterize (map (\<lambda>p. (xcoord p, ycoord p)) (points ?filtered)) (colors ?filtered)
              (boundary floor_surface) ?g =
            rasterize [(0, 0), (1 / 250, 0)] [(1 / 4, 0, 0), (1 / 2, 0, 0)] (0, 0, 2, 2) 1"
    by code_simp
  from raster_uses_masked_points[OF h1 h2 refl h4 refl refl refl,
      where vds=voxel_down_sample and fs=Map.empty and wp=True]
  obtain t where t: "create_texture_image voxel_down_sample close_job floor_surface Map.empty
        (Scalar True) (Some 3) (Some ''t'') True = Inr t"
    "image_name t = ?pre @ ''_'' @ fmt03 (face_number floor_surface) @ ''.png''"
    "files t (''out'', image_name t) =
       Some (Png (rasterize (map (\<lambda>p. (xcoord p, ycoord p)) (points ?filtered))
                    (colors ?filtered) (boundary floor_surface) ?g))"
    "files t (''out'', ?pre @ ''_'' @ fmt03 (face_number floor_surface) @ ''.ply'') =
       Some (Ply (if ?g > gridsize close_job * 2 then voxel_down_sample ?g ?filtered
                  else ?filtered))"
    by blast
  from t(2) n1 have a: "image_name t = ''t_000.png''" by simp
  from t(3) a c2 have b: "files t (''out'', ''t_000.png'') =
        Some (Png (rasterize [(0, 0), (1 / 250, 0)] [(1 / 4, 0, 0), (1 / 2, 0, 0)]
                     (0, 0, 2, 2) 1))" by simp
  from t(4) n2 c1 have c: "files t (''out'', ''t_000.ply'') =
        Some (Ply \<lparr> points = [(1 / 500, 0, 0)], colors = [(3 / 8, 0, 0)] \<rparr>)" by simp
  from h1 h4 t(1) a b c show ?thesis by blast
qed

subsection \<open>The grid size\<close>




subsection \<open>The projection matrix\<close>





















subsection \<open>What \<open>make_objfiles\<close> writes\<close>

text \<open>
  The lines of the OBJ file are the lists of the sections above, and on the example
  building the whole function runs through.
\<close>

lemma make_objfiles_lines:
  assumes "make_objfiles vds b faces fs imagesize method prefix = Inr out"
  shows "\<exists>surfaces. make_surfaces 0 faces = Inr surfaces \<and>
           v_lines out = all_vertices faces \<and>
           vt_lines out = vt_list surfaces \<and>
           obj_f_lines out = f_lines faces surfaces \<and>
           vn_lines out = map (\<lambda>s. column (projection_matrix s) 2) surfaces"
  using assms
  by (auto simp: make_objfiles_def split: sum.splits option.splits prod.splits)

lemma make_objfiles_example:
  "case make_objfiles voxel_down_sample (job 2) [floor_ring, wall_ring] Map.empty (Some 3)
          MethodNearest ''t'' of
     Inl e \<Rightarrow> False
   | Inr out \<Rightarrow>
       texture_images out = [''t_000.png'', ''t_001.png''] \<and>
       obj_f_lines out = [[(1, 1, 1), (2, 2, 1), (3, 3, 1), (4, 4, 1)],
                          [(1, 1, 2), (4, 2, 2), (5, 4, 2)]]"
  unfolding make_objfiles_def example_surfaces_computed
  by code_simp

end
